theory Spec2Isabelle
  imports Complex_Main "HOL-Library.Log_Nat"
begin

section \<open>Data model\<close>

text \<open>
  The tables of \<^verbatim>\<open>server/models.py\<close>, \<^verbatim>\<open>distribution/models.py\<close> and
  \<^verbatim>\<open>preference/models.py\<close>, restricted to the columns on which the control flow and
  the stored values of the key allocation code in \<^verbatim>\<open>distribution/serializers.py\<close> depend. Primary keys and foreign keys are
  integers; a nullable column is an \<open>option\<close>. Fields carry a prefix naming their table
  (\<open>s_\<close> for OutlineServer, \<open>u_\<close> for Vpnuser, \<open>ou_\<close> for OutlineUser, the credential).
\<close>

record outline_server =
  s_id :: int
  s_type :: string
  s_active :: bool
  s_is_blocked :: bool
  s_is_distributing :: bool
  s_level :: int
  s_dist_model :: int
  s_user_src :: string
  s_location :: "int option"
  s_api_url :: "string option"

record vpnuser =
  u_id :: int
  u_username :: string
  u_channel :: string
  u_reputation :: int
  u_banned :: bool

datatype deletion_cause = NA | INACTIVE

record outline_user =
  ou_id :: int
  ou_user :: "int option"
  ou_server :: int
  ou_outline_key_id :: int
  ou_outline_key :: string
  ou_reputation :: int
  ou_transfer :: "real option"
  ou_user_issue :: "int option"
  ou_active :: bool
  ou_removed :: bool
  ou_exists_on_server :: bool
  ou_group_id :: "int option"
  ou_delete_date :: "int option"
  ou_deletion_cause :: deletion_cause
  ou_request_type :: string

record location =
  l_id :: int
  l_active :: bool

record prefix =
  p_port :: "int option"
  p_prefix_str :: string
  p_is_active :: bool

record load_balancer =
  lb_host_name :: string
  lb_server :: "int option"
  lb_is_active :: bool
  lb_replaces_ip :: bool

record online_config =
  oc_file_name :: string
  oc_storage_service :: string
  oc_outline_user :: "int option"

record db =
  Vpnuser_objects :: "vpnuser list"
  OutlineUser_objects :: "outline_user list"
  OutlineServer_objects :: "outline_server list"
  Location_objects :: "location list"
  Prefix_objects :: "prefix list"
  LoadBalancer_objects :: "load_balancer list"
  OnlineConfig_objects :: "online_config list"
  Issue_objects :: "int list"

text \<open>\<^verbatim>\<open>DistributionModelChoice\<close>: an \<^verbatim>\<open>IntegerChoices\<close>, compared with plain integers.\<close>

definition BASIC :: int where "BASIC = 0"
definition LOCATIONED :: int where "LOCATIONED = 1"
definition FIXED_IP :: int where "FIXED_IP = 2"

text \<open>The settings that the allocation code reads. \<open>REPUTATION_MAP\<close> is \<open>None\<close> when the
  settings module does not define it (\<^verbatim>\<open>hasattr(settings, 'REPUTATION_MAP')\<close> is false).\<close>

record settings =
  REAL_VPN_SERVERS :: bool
  REPUTATION_MAP :: "int list option"
  GTF_PROB_WEIGHT :: int

section \<open>Reputation and tiers (\<^verbatim>\<open>lp_server/reputation.py\<close>)\<close>

text \<open>The loop \<^verbatim>\<open>for n in reversed(range(len(reputation_map)))\<close> with its \<^verbatim>\<open>break\<close>:
  the first index of the given sequence whose threshold the reputation reaches, and the
  initial \<^verbatim>\<open>level = 0\<close> when the sequence is exhausted.\<close>

fun scan_levels :: "int list \<Rightarrow> int \<Rightarrow> nat list \<Rightarrow> nat" where
  "scan_levels reputation_map user_reputation [] = 0"
| "scan_levels reputation_map user_reputation (n # ns) =
     (if user_reputation \<ge> reputation_map ! n then n
      else scan_levels reputation_map user_reputation ns)"

definition server_level :: "settings \<Rightarrow> int \<Rightarrow> nat" where
  "server_level st user_reputation =
     (let reputation_map = (case REPUTATION_MAP st of Some m \<Rightarrow> m | None \<Rightarrow> [0, 1, 2, 3])
      in scan_levels reputation_map user_reputation (rev [0 ..< length reputation_map]))"

definition after_new_key :: "int \<Rightarrow> int" where
  "after_new_key curr_rep = curr_rep + 1"

section \<open>Servers and credentials\<close>

definition is_working :: "outline_server \<Rightarrow> bool" where
  "is_working s = (if \<not> s_is_blocked s \<and> s_is_distributing s \<and> s_active s then True else False)"

text \<open>Following a foreign key: \<^verbatim>\<open>key.server\<close> is the row of the server table with that
  primary key. The callers below guard the access (\<^verbatim>\<open>key.server and ...\<close>), which the
  model reads as the lookup finding no row.\<close>

definition get_server_row :: "db \<Rightarrow> int \<Rightarrow> outline_server option" where
  "get_server_row d i = find (\<lambda>s. s_id s = i) (OutlineServer_objects d)"

text \<open>\<^verbatim>\<open>user.outline_keys\<close>: the credentials whose \<^verbatim>\<open>user\<close> column points to the user, in
  table order.\<close>

definition outline_keys :: "db \<Rightarrow> vpnuser \<Rightarrow> outline_user list" where
  "outline_keys d user = filter (\<lambda>k. ou_user k = Some (u_id user)) (OutlineUser_objects d)"

text \<open>\<^verbatim>\<open>QuerySet.first()\<close> on a model without default ordering orders by primary key: the
  row with the least id, or \<^verbatim>\<open>None\<close>.\<close>

fun first_by_pk :: "outline_user list \<Rightarrow> outline_user option" where
  "first_by_pk [] = None"
| "first_by_pk (k # ks) =
     (case first_by_pk ks of
        None \<Rightarrow> Some k
      | Some m \<Rightarrow> if ou_id k \<le> ou_id m then Some k else Some m)"

text \<open>\<^verbatim>\<open>key.server and key.server.is_working()\<close> as a truth value.\<close>

definition server_is_working :: "db \<Rightarrow> outline_user \<Rightarrow> bool" where
  "server_is_working d key =
     (case get_server_row d (ou_server key) of None \<Rightarrow> False | Some s \<Rightarrow> is_working s)"

text \<open>The loop of the location based branch: \<^verbatim>\<open>return True\<close> at the first key whose
  server works, \<^verbatim>\<open>return False\<close> after the loop.\<close>

fun any_key_working :: "db \<Rightarrow> outline_user list \<Rightarrow> bool" where
  "any_key_working d [] = False"
| "any_key_working d (key # keys) =
     (if server_is_working d key then True else any_key_working d keys)"

definition increase_reputation :: "db \<Rightarrow> vpnuser \<Rightarrow> int \<Rightarrow> bool" where
  "increase_reputation d user dist_model =
     (if dist_model = LOCATIONED then
        (if length (outline_keys d user) = 0 then False
         else any_key_working d (outline_keys d user))
      else if dist_model = FIXED_IP then False
      else
        (case first_by_pk (outline_keys d user) of
           Some outline_user \<Rightarrow> server_is_working d outline_user
         | None \<Rightarrow> False))"

subsection \<open>Soft lifecycle of a credential (\<^verbatim>\<open>OutlineUser.deactivate\<close>, \<^verbatim>\<open>reactivate\<close>)\<close>

text \<open>\<^verbatim>\<open>self.save()\<close>: the row with the object's primary key is overwritten; an object that
  has no row yet is inserted.\<close>

definition save_outline_user :: "outline_user \<Rightarrow> db \<Rightarrow> db" where
  "save_outline_user k d =
     (if ou_id k \<in> set (map ou_id (OutlineUser_objects d))
      then d\<lparr>OutlineUser_objects := map (\<lambda>r. if ou_id r = ou_id k then k else r) (OutlineUser_objects d)\<rparr>
      else d\<lparr>OutlineUser_objects := OutlineUser_objects d @ [k]\<rparr>)"

text \<open>Both methods mutate the object and save it; the model returns the object and the
  database after the call.\<close>

definition deactivate :: "outline_user \<Rightarrow> int option \<Rightarrow> real option \<Rightarrow> db \<Rightarrow> outline_user \<times> db" where
  "deactivate self issue transfer d =
     (if ou_request_type self = ''legacy'' then
        (let self' = self\<lparr>ou_user_issue := issue, ou_transfer := transfer, ou_removed := True,
                           ou_delete_date := None, ou_deletion_cause := NA\<rparr>
         in (self', save_outline_user self' d))
      else (self, d))"

definition reactivate :: "outline_user \<Rightarrow> db \<Rightarrow> outline_user \<times> db" where
  "reactivate self d =
     (if ou_request_type self = ''legacy'' then
        (let self' = self\<lparr>ou_user_issue := None, ou_transfer := None, ou_removed := False,
                           ou_delete_date := None, ou_deletion_cause := NA\<rparr>
         in (self', save_outline_user self' d))
      else (self, d))"

section \<open>Server pool selection\<close>

text \<open>The annotation \<^verbatim>\<open>usercount\<close>: the credentials of the server that are active and not
  removed. An annotated server is the pair of the row and its count.\<close>

definition usercount :: "db \<Rightarrow> outline_server \<Rightarrow> nat" where
  "usercount d s =
     length (filter (\<lambda>k. ou_server k = s_id s \<and> ou_active k \<and> \<not> ou_removed k) (OutlineUser_objects d))"

text \<open>Truth value of an optional primary key (\<^verbatim>\<open>if location:\<close>).\<close>

definition truthy :: "int option \<Rightarrow> bool" where
  "truthy v = (case v of None \<Rightarrow> False | Some i \<Rightarrow> i \<noteq> 0)"

text \<open>\<^verbatim>\<open>order_by('-usercount')\<close>: descending by count; rows with equal counts keep the
  order of the table (the database leaves their order open).\<close>

definition order_by_usercount_desc :: "(outline_server \<times> nat) list \<Rightarrow> (outline_server \<times> nat) list" where
  "order_by_usercount_desc xs = sort_key (\<lambda>p. - int (snd p)) xs"

definition get_server_by_level ::
  "db \<Rightarrow> vpnuser \<Rightarrow> int \<Rightarrow> bool \<Rightarrow> bool \<Rightarrow> int \<Rightarrow> int option \<Rightarrow> (outline_server \<times> nat) list" where
  "get_server_by_level d user level limited exclude dist_model location =
     (let servers1 =
            (if limited then
               filter (\<lambda>s. s_type s = ''legacy'' \<and> s_active s \<and> s_is_distributing s \<and>
                            s_level s = level \<and> s_dist_model s = dist_model \<and>
                            s_user_src s = u_channel user) (OutlineServer_objects d)
             else
               filter (\<lambda>s. s_type s = ''legacy'' \<and> s_active s \<and> s_is_distributing s \<and>
                            s_level s > level \<and> s_dist_model s = dist_model \<and>
                            s_user_src s = u_channel user) (OutlineServer_objects d));
          servers2 =
            (if truthy location then filter (\<lambda>s. s_location s = location) servers1
             else servers1);
          servers3 =
            (if exclude then
               (let last_keys = filter (\<lambda>k. ou_user k = Some (u_id user)) (OutlineUser_objects d);
                    last_servers = remdups (map ou_server last_keys)
                in filter (\<lambda>s. s_id s \<notin> set last_servers) servers2)
             else servers2)
      in order_by_usercount_desc (map (\<lambda>s. (s, usercount d s)) servers3))"


section \<open>Exceptions, the outside world and randomness\<close>

text \<open>
  The exceptions that leave the modelled functions. \<^verbatim>\<open>NotAcceptable\<close> is the API exception
  of \<^verbatim>\<open>serializers.py\<close>; its detail is one of the messages the code builds, with the
  values it formats into them. The other constructors are Python's and Django's own
  exceptions; \<open>BackendError\<close> stands for whatever an HTTP or storage library raises.
\<close>

datatype exn =
    NotAcceptable detail
  | KeyError string
  | IndexError
  | TypeError
  | AttributeError
  | DoesNotExist
  | MultipleObjectsReturned
  | ValueError
  | BackendError
and detail =
    User_does_not_exist
  | User_already_has_a_key
  | User_is_banned int
  | No_server_found_for_user int
  | Outline_server_error
  | Outline_key_creation_error
  | No_central_server_found
  | Gtf_creation_failed exn
  | Request_type_is_not_acceptable
  | Active_load_balancer_not_found exn
  | Unable_to_create_keys int exn

text \<open>Every call that leaves the process is recorded, in order.\<close>

datatype backend_call =
    Manager_new int
  | Manager_delete int int
  | Http_delete string int
  | Http_get string
  | Http_get_url string int
  | S3_put string

text \<open>
  The state that the code reads and changes: the database, the state of Python's random
  number generator (the stream of its future raw draws) and the log of backend calls.
\<close>

record world =
  w_db :: db
  w_rng :: "nat \<Rightarrow> nat"
  w_calls :: "backend_call list"

text \<open>
  What the backends answer. Each answer may depend on the number of backend calls made
  so far, so the same request can be answered differently at different times.
  \<^item> \<open>manager_new\<close>: the Outline manager creating a key on a server: a key with its id and
    access URL, \<^verbatim>\<open>None\<close>, or an exception;
  \<^item> \<open>manager_delete\<close>: the Outline manager deleting a key: done, \<^verbatim>\<open>OutlineTimeoutError\<close>,
    \<^verbatim>\<open>DoesNotExistError\<close>, or any other exception;
  \<^item> \<open>http_delete\<close>: the status code of \<^verbatim>\<open>DELETE {api_url}/{outline_key_id}\<close>, \<open>None\<close> when
    the request raises;
  \<^item> \<open>http_get\<close>: the status code of \<^verbatim>\<open>GET {api_url}\<close> and the \<^verbatim>\<open>id\<close> of its JSON body
    (\<open>None\<close> when the body has none), \<open>None\<close> when the request raises;
  \<^item> \<open>http_get_url\<close>: the text of \<^verbatim>\<open>GET {api_url}/{key_id}/?format=url\<close>;
  \<^item> \<open>update_json_file\<close>: whether writing the online configuration of a credential
    (file name, access key, prefix) succeeds; the parsing of the key and the upload are
    not modelled further;
  \<^item> \<open>new_file_name\<close>: the 64 characters drawn with \<^verbatim>\<open>secrets.choice\<close>;
  \<^item> \<open>sha512\<close>, \<open>replace_port\<close>, \<open>replace_ip\<close>: the digest and the two regular expression
    substitutions of \<^verbatim>\<open>distribution/utils.py\<close>, taken as given functions on strings.
\<close>

datatype new_key_outcome = New_key int string | New_none | New_raises

datatype delete_outcome = Deleted | OutlineTimeoutError | DoesNotExistError | OtherException

record env =
  manager_new :: "nat \<Rightarrow> outline_server \<Rightarrow> new_key_outcome"
  manager_delete :: "nat \<Rightarrow> outline_server \<Rightarrow> int \<Rightarrow> delete_outcome"
  http_delete :: "nat \<Rightarrow> string \<Rightarrow> int \<Rightarrow> nat option"
  http_get :: "nat \<Rightarrow> string \<Rightarrow> (nat \<times> int option) option"
  http_get_url :: "nat \<Rightarrow> string \<Rightarrow> int \<Rightarrow> string option"
  update_json_file :: "nat \<Rightarrow> string \<Rightarrow> string \<Rightarrow> string option \<Rightarrow> bool"
  new_file_name :: "nat \<Rightarrow> string"
  sha512 :: "string \<Rightarrow> string"
  replace_port :: "string \<Rightarrow> int option \<Rightarrow> string"
  replace_ip :: "string \<Rightarrow> string \<Rightarrow> string"

definition log_call :: "backend_call \<Rightarrow> world \<Rightarrow> world" where
  "log_call c w = w\<lparr>w_calls := w_calls w @ [c]\<rparr>"

definition now :: "world \<Rightarrow> nat" where
  "now w = length (w_calls w)"

text \<open>One raw draw of the generator.\<close>

definition draw :: "world \<Rightarrow> nat \<times> world" where
  "draw w = (w_rng w 0, w\<lparr>w_rng := (\<lambda>n. w_rng w (Suc n))\<rparr>)"

text \<open>\<^verbatim>\<open>random.randint(a, b)\<close>, for \<open>a \<le> b\<close>.\<close>

definition randint :: "int \<Rightarrow> int \<Rightarrow> world \<Rightarrow> int \<times> world" where
  "randint a b w = (case draw w of (r, w') \<Rightarrow> (a + int r mod (b - a + 1), w'))"

text \<open>\<^verbatim>\<open>random.choice(seq)\<close>: \<^verbatim>\<open>IndexError\<close> on an empty sequence, before any draw.\<close>

definition random_choice :: "'a list \<Rightarrow> world \<Rightarrow> (exn + 'a) \<times> world" where
  "random_choice xs w =
     (if xs = [] then (Inl IndexError, w)
      else (case draw w of (r, w') \<Rightarrow> (Inr (xs ! (r mod length xs)), w')))"

text \<open>\<^verbatim>\<open>random.choices(['gtf', 'central'], weights=(g, 100 - g), k=1)[0]\<close>: the first
  element iff the uniform draw from \<open>[0, 100)\<close> lies below the first weight.\<close>

definition random_choices_weighted :: "int \<Rightarrow> world \<Rightarrow> string \<times> world" where
  "random_choices_weighted gtf_weight w =
     (case draw w of (r, w') \<Rightarrow>
        (if int (r mod 100) < gtf_weight then ''gtf'' else ''central'', w'))"

text \<open>\<^verbatim>\<open>random.choices(population)[0]\<close> on a non-empty population: uniform.\<close>

definition random_choices_uniform :: "'a list \<Rightarrow> world \<Rightarrow> 'a \<times> world" where
  "random_choices_uniform xs w = (case draw w of (r, w') \<Rightarrow> (xs ! (r mod length xs), w'))"

subsection \<open>\<^verbatim>\<open>find_server\<close>\<close>

text \<open>
  Python's floats are IEEE doubles: a double is a rational number, and every arithmetic
  operation returns the exact result rounded to the nearest double, ties going to the even
  significand. \<open>round_float\<close> is that rounding, for the magnitudes that occur here (neither
  overflow nor gradual underflow): with \<open>2 ^ ex \<le> |x| < 2 ^ (ex + 1)\<close>, the doubles around
  \<open>x\<close> are the multiples of \<open>2 ^ (ex - 52)\<close>.
\<close>

definition round_float :: "rat \<Rightarrow> rat" where
  "round_float x =
     (if x = 0 then 0
      else
        (let a = \<bar>x\<bar>;
             k = bitlen (fst (quotient_of a)) - bitlen (snd (quotient_of a));
             ex = (if 2 powi k \<le> a then k else k - 1);
             ulp = 2 powi (ex - 52);
             m = a / ulp;
             f = \<lfloor>m\<rfloor>;
             r = (if m - of_int f < 1 / 2 then f
                  else if m - of_int f > 1 / 2 then f + 1
                  else if even f then f else f + 1)
         in sgn x * of_int r * ulp))"

text \<open>
  The first loop returns at the first server without users and sums the inverse counts
  otherwise; the second loop walks the servers until the draw of
  \<^verbatim>\<open>random.randint(0, 100)\<close> is used up, and leaves the last server in the loop variable
  when it never breaks. The sums, quotients, products and differences are float
  operations, each rounded; the integers involved (the draw, 100, the counts) convert
  exactly. No count is zero in the second loop, since the first one would have returned,
  and the sum of the inverse counts is positive.
\<close>

fun zero_scan :: "(outline_server \<times> nat) list \<Rightarrow> rat \<Rightarrow> (outline_server \<times> nat) + rat" where
  "zero_scan [] inverse_total = Inr inverse_total"
| "zero_scan (server # rest) inverse_total =
     (if snd server = 0 then Inl server
      else zero_scan rest (round_float (inverse_total + round_float (1 / of_nat (snd server)))))"

fun weighted_walk ::
  "(outline_server \<times> nat) list \<Rightarrow> rat \<Rightarrow> rat \<Rightarrow> (outline_server \<times> nat) option
     \<Rightarrow> (outline_server \<times> nat) option" where
  "weighted_walk [] inverse_total prob cur = cur"
| "weighted_walk (server # rest) inverse_total prob cur =
     (let prob' = round_float
            (prob -
             round_float
               (round_float (round_float (1 / of_nat (snd server)) * round_float (1 / inverse_total))
                * 100))
      in if prob' \<le> 0 then Some server
         else weighted_walk rest inverse_total prob' (Some server))"

definition find_server ::
  "(outline_server \<times> nat) list \<Rightarrow> world \<Rightarrow> (outline_server \<times> nat) option \<times> world" where
  "find_server servers w =
     (if length servers > 1 then
        (case zero_scan servers 0 of
           Inl server \<Rightarrow> (Some server, w)
         | Inr inverse_total \<Rightarrow>
             (case randint 0 100 w of (prob, w') \<Rightarrow>
                (weighted_walk servers inverse_total (of_int prob) None, w')))
      else (case servers of [] \<Rightarrow> (None, w) | server # _ \<Rightarrow> (Some server, w)))"

subsection \<open>\<^verbatim>\<open>get_server\<close>\<close>

text \<open>The inner loop \<^verbatim>\<open>for limited in [True, False]\<close> with its \<^verbatim>\<open>break\<close>; the result is the
  value of the variable \<^verbatim>\<open>server\<close> when the loop is left.\<close>

fun limited_loop ::
  "db \<Rightarrow> vpnuser \<Rightarrow> int \<Rightarrow> bool \<Rightarrow> int \<Rightarrow> int option \<Rightarrow> bool list \<Rightarrow> world
     \<Rightarrow> (outline_server \<times> nat) option \<times> world" where
  "limited_loop d user level exclude dist_model loc [] w = (None, w)"
| "limited_loop d user level exclude dist_model loc (limited # rest) w =
     (case find_server (get_server_by_level d user level limited exclude dist_model loc) w of
        (Some server, w') \<Rightarrow> (Some server, w')
      | (None, w') \<Rightarrow> limited_loop d user level exclude dist_model loc rest w')"

text \<open>The loop \<^verbatim>\<open>for exclude in [True, False]\<close> around it.\<close>

fun exclude_loop ::
  "db \<Rightarrow> vpnuser \<Rightarrow> int \<Rightarrow> int \<Rightarrow> int option \<Rightarrow> bool list \<Rightarrow> world
     \<Rightarrow> (outline_server \<times> nat) option \<times> world" where
  "exclude_loop d user level dist_model loc [] w = (None, w)"
| "exclude_loop d user level dist_model loc (exclude # rest) w =
     (case limited_loop d user level exclude dist_model loc [True, False] w of
        (Some server, w') \<Rightarrow> (Some server, w')
      | (None, w') \<Rightarrow> exclude_loop d user level dist_model loc rest w')"

text \<open>The loop over the locations: a location without server is logged and skipped.
  \<^verbatim>\<open>loc.id if loc else None\<close> is the id of the location, if there is one.\<close>

fun location_loop ::
  "db \<Rightarrow> vpnuser \<Rightarrow> int \<Rightarrow> int \<Rightarrow> location option list \<Rightarrow> (outline_server \<times> nat) list \<Rightarrow> world
     \<Rightarrow> (outline_server \<times> nat) list \<times> world" where
  "location_loop d user level dist_model [] server_list w = (server_list, w)"
| "location_loop d user level dist_model (loc # rest) server_list w =
     (case exclude_loop d user level dist_model (map_option l_id loc) [True, False] w of
        (None, w') \<Rightarrow> location_loop d user level dist_model rest server_list w'
      | (Some server, w') \<Rightarrow>
          location_loop d user level dist_model rest (server_list @ [server]) w')"

definition get_server ::
  "vpnuser \<Rightarrow> int \<Rightarrow> int \<Rightarrow> location option \<Rightarrow> world \<Rightarrow> (outline_server \<times> nat) list \<times> world" where
  "get_server user level dist_model location w =
     (let locations =
            (if dist_model = LOCATIONED
             then map Some (filter l_active (Location_objects (w_db w)))
             else [location])
      in location_loop (w_db w) user level dist_model locations [] w)"

section \<open>Backend provisioning\<close>

text \<open>
  The key dictionaries that the code passes around. \<^verbatim>\<open>get_key_dict\<close> builds them with the
  keys \<^verbatim>\<open>id\<close>, \<^verbatim>\<open>outline_key_id\<close>, \<^verbatim>\<open>server\<close>, \<^verbatim>\<open>outline_key\<close>; \<^verbatim>\<open>create_keys\<close> builds
  them with \<^verbatim>\<open>server\<close>, \<^verbatim>\<open>outline_key_id\<close>, \<^verbatim>\<open>outline_key\<close>, \<^verbatim>\<open>exists_on_server\<close>. A key
  that a dictionary does not have is \<open>None\<close>; reading it raises \<^verbatim>\<open>KeyError\<close>.
\<close>

record key_dict =
  kd_id :: "int option"
  kd_outline_key_id :: int
  kd_server :: int
  kd_outline_key :: string
  kd_exists_on_server :: "bool option"

definition get_key_dict :: "outline_user list \<Rightarrow> key_dict list" where
  "get_key_dict keys =
     map (\<lambda>key. \<lparr>kd_id = Some (ou_id key), kd_outline_key_id = ou_outline_key_id key,
                  kd_server = ou_server key, kd_outline_key = ou_outline_key key,
                  kd_exists_on_server = None\<rparr>) keys"

text \<open>\<^verbatim>\<open>OutlineUser.objects.filter(id=id).update(exists_on_server=False)\<close>.\<close>

definition mark_not_on_server :: "int \<Rightarrow> world \<Rightarrow> world" where
  "mark_not_on_server i w =
     w\<lparr>w_db := (w_db w)\<lparr>OutlineUser_objects :=
          map (\<lambda>r. if ou_id r = i then r\<lparr>ou_exists_on_server := False\<rparr> else r)
              (OutlineUser_objects (w_db w))\<rparr>\<rparr>"

text \<open>Removing the trailing slash of an API URL.\<close>

definition strip_slash :: "string \<Rightarrow> string" where
  "strip_slash api_url =
     (if api_url \<noteq> [] \<and> last api_url = CHR ''/'' then butlast api_url else api_url)"

text \<open>
  The block of \<^verbatim>\<open>remove_key_from_server\<close> for a server of type \<^verbatim>\<open>gtf\<close>. It ends without
  \<^verbatim>\<open>continue\<close>, so the caller goes on with the code after it.
\<close>

definition remove_gtf ::
  "env \<Rightarrow> outline_server \<Rightarrow> int \<Rightarrow> int \<Rightarrow> int list \<Rightarrow> world \<Rightarrow> (exn + int list) \<times> world" where
  "remove_gtf e server i outline_key_id failed_keys w =
     (case s_api_url server of
        None \<Rightarrow> (Inl AttributeError, w)
      | Some api_url0 \<Rightarrow>
          (let api_url = strip_slash api_url0;
               w1 = log_call (Http_delete api_url outline_key_id) w
           in case http_delete e (now w) api_url outline_key_id of
                None \<Rightarrow> (Inl BackendError, w1)
              | Some status_code \<Rightarrow>
                  if status_code = 404 then (Inr failed_keys, mark_not_on_server i w1)
                  else if status_code = 200 then (Inr failed_keys, mark_not_on_server i w1)
                  else (Inr (failed_keys @ [i]), w1)))"

text \<open>The part for central and legacy servers: inactive servers are skipped, the manager
  is called in a \<^verbatim>\<open>try\<close> whose handlers turn every exception into a list entry or a mark.\<close>

definition remove_with_manager ::
  "env \<Rightarrow> outline_server \<Rightarrow> int \<Rightarrow> int \<Rightarrow> int list \<Rightarrow> world \<Rightarrow> int list \<times> world" where
  "remove_with_manager e server i outline_key_id failed_keys w =
     (if \<not> s_active server then (failed_keys, mark_not_on_server i w)
      else
        (let w1 = log_call (Manager_delete (s_id server) outline_key_id) w
         in case manager_delete e (now w) server outline_key_id of
              Deleted \<Rightarrow> (failed_keys, mark_not_on_server i w1)
            | OutlineTimeoutError \<Rightarrow> (failed_keys @ [i], w1)
            | DoesNotExistError \<Rightarrow> (failed_keys, mark_not_on_server i w1)
            | OtherException \<Rightarrow> (failed_keys @ [i], w1)))"

text \<open>The body of the loop of \<^verbatim>\<open>remove_key_from_server\<close> for one key.\<close>

definition remove_one_key ::
  "settings \<Rightarrow> env \<Rightarrow> key_dict \<Rightarrow> int list \<Rightarrow> world \<Rightarrow> (exn + int list) \<times> world" where
  "remove_one_key st e key failed_keys w =
     (case kd_id key of
        None \<Rightarrow> (Inl (KeyError ''id''), w)
      | Some i \<Rightarrow>
          if REAL_VPN_SERVERS st then
            (case get_server_row (w_db w) (kd_server key) of
               None \<Rightarrow> (Inl DoesNotExist, w)
             | Some server \<Rightarrow>
                 (case (if s_type server = ''gtf''
                        then remove_gtf e server i (kd_outline_key_id key) failed_keys w
                        else (Inr failed_keys, w)) of
                    (Inl x, w1) \<Rightarrow> (Inl x, w1)
                  | (Inr failed1, w1) \<Rightarrow>
                      (case remove_with_manager e server i (kd_outline_key_id key) failed1 w1 of
                         (failed2, w2) \<Rightarrow> (Inr failed2, w2))))
          else (Inr failed_keys, mark_not_on_server i w))"

fun remove_key_loop ::
  "settings \<Rightarrow> env \<Rightarrow> key_dict list \<Rightarrow> int list \<Rightarrow> world \<Rightarrow> (exn + int list) \<times> world" where
  "remove_key_loop st e [] failed_keys w = (Inr failed_keys, w)"
| "remove_key_loop st e (key # keys) failed_keys w =
     (case remove_one_key st e key failed_keys w of
        (Inl x, w') \<Rightarrow> (Inl x, w')
      | (Inr failed', w') \<Rightarrow> remove_key_loop st e keys failed' w')"

definition remove_key_from_server ::
  "settings \<Rightarrow> env \<Rightarrow> key_dict list \<Rightarrow> world \<Rightarrow> (exn + int list) \<times> world" where
  "remove_key_from_server st e keys w = remove_key_loop st e keys [] w"

text \<open>Python's \<^verbatim>\<open>str\<close> of an integer, for the access URL of a simulated key.\<close>

fun str_nat :: "nat \<Rightarrow> string" where
  "str_nat n =
     (if n < 10 then [''0123456789'' ! n]
      else str_nat (n div 10) @ [''0123456789'' ! (n mod 10)])"

definition str_int :: "int \<Rightarrow> string" where
  "str_int i = (if i < 0 then CHR ''-'' # str_nat (nat (- i)) else str_nat (nat i))"

text \<open>\<^verbatim>\<open>create_key_on_server\<close>: the id and the access URL of the new key.\<close>

definition create_key_on_server ::
  "settings \<Rightarrow> env \<Rightarrow> outline_server \<Rightarrow> world \<Rightarrow> (exn + int \<times> string) \<times> world" where
  "create_key_on_server st e server w =
     (if \<not> REAL_VPN_SERVERS st then
        (case randint 1 100 w of (r1, w1) \<Rightarrow>
           (case randint 1 100 w1 of (r2, w2) \<Rightarrow>
              (Inr (r1, ''https://localserver'' @ str_int r2 @ ''/api''), w2)))
      else
        (let w1 = log_call (Manager_new (s_id server)) w
         in case manager_new e (now w) server of
              New_raises \<Rightarrow> (Inl (NotAcceptable Outline_server_error), w1)
            | New_none \<Rightarrow> (Inl (NotAcceptable Outline_server_error), w1)
            | New_key i url \<Rightarrow> (Inr (i, url), w1)))"

text \<open>\<^verbatim>\<open>key.refresh_from_db()\<close>: the row with the object's primary key, which must exist.\<close>

definition refresh_from_db :: "outline_user \<Rightarrow> db \<Rightarrow> exn + outline_user" where
  "refresh_from_db key d =
     (case find (\<lambda>r. ou_id r = ou_id key) (OutlineUser_objects d) of
        None \<Rightarrow> Inl DoesNotExist
      | Some r \<Rightarrow> Inr r)"

text \<open>
  What \<^verbatim>\<open>remove_keys_from_db\<close> hands to \<^verbatim>\<open>deactivate\<close> as the issue: an \<^verbatim>\<open>Issue\<close> object
  (its id) or \<^verbatim>\<open>None\<close>; or, when the given id is falsy and so skips the lookup, that number
  itself, which the assignment \<^verbatim>\<open>self.user_issue = issue\<close> of a legacy credential refuses
  with \<^verbatim>\<open>ValueError\<close>.
\<close>

datatype issue_argument = An_issue "int option" | A_number int

fun deactivate_loop :: "outline_user list \<Rightarrow> issue_argument \<Rightarrow> db \<Rightarrow> exn + db" where
  "deactivate_loop [] user_issue d = Inr d"
| "deactivate_loop (key # keys) user_issue d =
     (case refresh_from_db key d of
        Inl x \<Rightarrow> Inl x
      | Inr key' \<Rightarrow>
          (case user_issue of
             An_issue issue \<Rightarrow>
               deactivate_loop keys user_issue (snd (deactivate key' issue None d))
           | A_number n \<Rightarrow>
               if ou_request_type key' = ''legacy'' then Inl ValueError
               else deactivate_loop keys user_issue d))"

text \<open>\<^verbatim>\<open>remove_keys_from_db\<close>: an issue id that names no issue is logged and dropped.\<close>

definition remove_keys_from_db :: "outline_user list \<Rightarrow> int option \<Rightarrow> db \<Rightarrow> exn + db" where
  "remove_keys_from_db keys user_issue d =
     (let user_issue' =
            (case user_issue of
               None \<Rightarrow> An_issue None
             | Some i \<Rightarrow>
                 if i \<noteq> 0
                 then (if i \<in> set (Issue_objects d) then An_issue (Some i) else An_issue None)
                 else A_number i)
      in deactivate_loop keys user_issue' d)"

section \<open>Key lifecycle: \<^verbatim>\<open>create_keys\<close> and \<^verbatim>\<open>create\<close>\<close>

text \<open>The validated request data: the entries of the dictionary that \<^verbatim>\<open>create\<close> and
  \<^verbatim>\<open>create_keys\<close> look at; an optional entry that is absent is \<open>None\<close>.\<close>

record validated_data =
  vd_user :: string
  vd_model :: "int option"
  vd_request_type :: "string option"
  vd_user_issue :: "int option"

text \<open>The primary key of a new credential: the sequence is past every stored id.\<close>

definition new_pk :: "db \<Rightarrow> int" where
  "new_pk d = fold max (map ou_id (OutlineUser_objects d)) 0 + 1"

text \<open>\<^verbatim>\<open>OutlineUser.objects.create\<close> with the column defaults of the model.\<close>

definition OutlineUser_create ::
  "int \<Rightarrow> string \<Rightarrow> vpnuser \<Rightarrow> outline_server \<Rightarrow> int option \<Rightarrow> int \<Rightarrow> string \<Rightarrow> db
     \<Rightarrow> outline_user \<times> db" where
  "OutlineUser_create outline_key_id outline_key user server group_id reputation request_type d =
     (let row = \<lparr>ou_id = new_pk d, ou_user = Some (u_id user), ou_server = s_id server,
                  ou_outline_key_id = outline_key_id, ou_outline_key = outline_key,
                  ou_reputation = reputation, ou_transfer = None, ou_user_issue = None,
                  ou_active = True, ou_removed = False, ou_exists_on_server = True,
                  ou_group_id = group_id, ou_delete_date = None, ou_deletion_cause = NA,
                  ou_request_type = request_type\<rparr>
      in (row, d\<lparr>OutlineUser_objects := OutlineUser_objects d @ [row]\<rparr>))"

text \<open>\<^verbatim>\<open>OutlineUser.objects.aggregate(max=Max('group_id'))['max']\<close>: the greatest group id
  that is not null, \<^verbatim>\<open>None\<close> without one.\<close>

definition max_group_id :: "db \<Rightarrow> int option" where
  "max_group_id d =
     (case List.map_filter ou_group_id (OutlineUser_objects d) of
        [] \<Rightarrow> None
      | g # gs \<Rightarrow> Some (fold max gs g))"

text \<open>The \<^verbatim>\<open>try\<close> block that picks a random active prefix and rewrites the port; any
  exception inside is logged and the key stays as it is.\<close>

definition apply_prefix :: "env \<Rightarrow> string \<Rightarrow> world \<Rightarrow> (string option \<times> string) \<times> world" where
  "apply_prefix e outline_key w =
     (case random_choice (filter p_is_active (Prefix_objects (w_db w))) w of
        (Inl x, w') \<Rightarrow> ((None, outline_key), w')
      | (Inr random_prefix, w') \<Rightarrow>
          ((Some (p_prefix_str random_prefix),
            replace_port e outline_key (p_port random_prefix)), w'))"

definition set_db :: "db \<Rightarrow> world \<Rightarrow> world" where
  "set_db d w = w\<lparr>w_db := d\<rparr>"

text \<open>
  The loop of the legacy branch over the chosen servers. The list \<^verbatim>\<open>created_keys\<close> is the
  caller's list, appended to in place, so it is returned also when the loop raises.
\<close>

fun legacy_loop ::
  "settings \<Rightarrow> env \<Rightarrow> vpnuser \<Rightarrow> int option \<Rightarrow> int \<Rightarrow> (outline_server \<times> nat) list
     \<Rightarrow> key_dict list \<Rightarrow> outline_user option \<Rightarrow> string option \<Rightarrow> world
     \<Rightarrow> (exn + outline_user option \<times> string option) \<times> key_dict list \<times> world" where
  "legacy_loop st e user group_id new_rep [] created_keys outline_user prefix_str w =
     (Inr (outline_user, prefix_str), created_keys, w)"
| "legacy_loop st e user group_id new_rep (server # rest) created_keys outline_user prefix_str w =
     (case create_key_on_server st e (fst server) w of
        (Inl x, w1) \<Rightarrow> (Inl (NotAcceptable Outline_key_creation_error), created_keys, w1)
      | (Inr (outline_key_id, outline_key0), w1) \<Rightarrow>
          (case apply_prefix e outline_key0 w1 of
             ((prefix_str', outline_key), w2) \<Rightarrow>
               (let created_keys' = created_keys @
                      [\<lparr>kd_id = None, kd_outline_key_id = outline_key_id,
                        kd_server = s_id (fst server), kd_outline_key = outline_key,
                        kd_exists_on_server = Some True\<rparr>]
                in case OutlineUser_create outline_key_id outline_key user (fst server)
                          group_id new_rep ''legacy'' (w_db w2) of
                     (row, d') \<Rightarrow>
                       legacy_loop st e user group_id new_rep rest created_keys' (Some row)
                         prefix_str' (set_db d' w2))))"

text \<open>\<^verbatim>\<open>user.save()\<close> after the reputation changed.\<close>

definition save_vpnuser :: "vpnuser \<Rightarrow> db \<Rightarrow> db" where
  "save_vpnuser user d =
     d\<lparr>Vpnuser_objects := map (\<lambda>r. if u_id r = u_id user then user else r) (Vpnuser_objects d)\<rparr>"

text \<open>The branch of \<^verbatim>\<open>create_keys\<close> for \<^verbatim>\<open>request_type == 'legacy'\<close>.\<close>

definition create_keys_legacy ::
  "settings \<Rightarrow> env \<Rightarrow> vpnuser \<Rightarrow> validated_data \<Rightarrow> key_dict list \<Rightarrow> world
     \<Rightarrow> (exn + outline_user option \<times> string option) \<times> key_dict list \<times> world" where
  "create_keys_legacy st e user vd created_keys w =
     (let dist_model = (case vd_model vd of Some m \<Rightarrow> m | None \<Rightarrow> BASIC);
          group_id =
            (if dist_model = LOCATIONED then
               (case max_group_id (w_db w) of
                  None \<Rightarrow> Some 1
                | Some g \<Rightarrow> if g \<noteq> 0 then Some (g + 1) else Some 1)
             else None);
          new_rep =
            (if increase_reputation (w_db w) user dist_model
             then after_new_key (u_reputation user) else u_reputation user);
          level = server_level st new_rep
      in case get_server user (int level) dist_model None w of
           (server_list, w1) \<Rightarrow>
             if server_list = [] then
               (Inl (NotAcceptable (No_server_found_for_user (u_id user))), created_keys, w1)
             else
               (case legacy_loop st e user group_id new_rep server_list created_keys None None w1 of
                  (Inl x, created_keys', w2) \<Rightarrow> (Inl x, created_keys', w2)
                | (Inr (outline_user, prefix_str), created_keys', w2) \<Rightarrow>
                    (Inr (outline_user, prefix_str), created_keys',
                     (if new_rep \<noteq> u_reputation user
                      then set_db (save_vpnuser (user\<lparr>u_reputation := new_rep\<rparr>) (w_db w2)) w2
                      else w2))))"

text \<open>
  \<^verbatim>\<open>create_keys_gtf\<close>: two requests to the GTF API. Every exception of the branch is
  wrapped by the caller.
\<close>

definition create_keys_gtf :: "env \<Rightarrow> outline_server \<Rightarrow> world \<Rightarrow> (exn + int \<times> string) \<times> world" where
  "create_keys_gtf e server w =
     (case s_api_url server of
        None \<Rightarrow> (Inl AttributeError, w)
      | Some api_url0 \<Rightarrow>
          (let api_url = strip_slash api_url0;
               w1 = log_call (Http_get api_url) w
           in case http_get e (now w) api_url of
                None \<Rightarrow> (Inl BackendError, w1)
              | Some (status_code, body_id) \<Rightarrow>
                  if status_code = 200 then
                    (case body_id of
                       None \<Rightarrow> (Inl (KeyError ''id''), w1)
                     | Some key_id \<Rightarrow>
                         (let w2 = log_call (Http_get_url api_url key_id) w1
                          in case http_get_url e (now w1) api_url key_id of
                               None \<Rightarrow> (Inl BackendError, w2)
                             | Some text \<Rightarrow> (Inr (key_id, text), w2)))
                  else (Inl BackendError, w1)))"

text \<open>
  The common end of the central and the GTF branch: load balancer, prefix, the entry of
  \<^verbatim>\<open>created_keys\<close> and the new row. \<open>new_key_url\<close> is \<^verbatim>\<open>new_key['accessUrl']\<close>, which only
  the central branch defines and only it reads. The entry \<^verbatim>\<open>model\<close> is still in the
  validated data here, and the model constructor rejects it.
\<close>

definition finish_single ::
  "env \<Rightarrow> vpnuser \<Rightarrow> string \<Rightarrow> validated_data \<Rightarrow> outline_server \<Rightarrow> int \<Rightarrow> string
     \<Rightarrow> key_dict list \<Rightarrow> world
     \<Rightarrow> (exn + outline_user option \<times> string option) \<times> key_dict list \<times> world" where
  "finish_single e user request_type vd server outline_key_id outline_key0 created_keys w =
     (case random_choice
             (filter (\<lambda>lb. lb_server lb = Some (s_id server) \<and> lb_is_active lb)
                (LoadBalancer_objects (w_db w))) w of
        (Inl x, w1) \<Rightarrow>
          (Inl (NotAcceptable (Active_load_balancer_not_found x)), created_keys, w1)
      | (Inr random_loadbalancer, w1) \<Rightarrow>
          (let outline_key1 =
                 (if request_type \<noteq> ''gtf'' \<and> lb_replaces_ip random_loadbalancer
                  then replace_ip e outline_key0 (lb_host_name random_loadbalancer)
                  else outline_key0)
           in case apply_prefix e outline_key1 w1 of
                ((prefix_str, outline_key), w2) \<Rightarrow>
                  (let created_keys' = created_keys @
                         [\<lparr>kd_id = None, kd_outline_key_id = outline_key_id,
                           kd_server = s_id server, kd_outline_key = outline_key,
                           kd_exists_on_server = Some True\<rparr>]
                   in if vd_model vd \<noteq> None then (Inl TypeError, created_keys', w2)
                      else
                        (case OutlineUser_create outline_key_id outline_key user server
                                None 0 request_type (w_db w2) of
                           (row, d') \<Rightarrow>
                             (Inr (Some row, prefix_str), created_keys', set_db d' w2)))))"

definition create_keys ::
  "settings \<Rightarrow> env \<Rightarrow> vpnuser \<Rightarrow> string \<Rightarrow> validated_data \<Rightarrow> key_dict list \<Rightarrow> world
     \<Rightarrow> (exn + outline_user option \<times> string option) \<times> key_dict list \<times> world" where
  "create_keys st e user request_type vd created_keys w =
     (if request_type = ''legacy'' then create_keys_legacy st e user vd created_keys w
      else if request_type = ''central'' then
        (case random_choice
                (filter (\<lambda>s. s_type s = ''central'' \<and> s_active s \<and> s_is_distributing s)
                   (OutlineServer_objects (w_db w))) w of
           (Inl x, w1) \<Rightarrow> (Inl (NotAcceptable No_central_server_found), created_keys, w1)
         | (Inr server, w1) \<Rightarrow>
             (case create_key_on_server st e server w1 of
                (Inl x, w2) \<Rightarrow> (Inl (NotAcceptable Outline_key_creation_error), created_keys, w2)
              | (Inr (outline_key_id, outline_key), w2) \<Rightarrow>
                  finish_single e user request_type vd server outline_key_id outline_key
                    created_keys w2))
      else if request_type = ''gtf'' then
        (case random_choice
                (filter (\<lambda>s. s_type s = ''gtf'' \<and> s_active s \<and> s_is_distributing s)
                   (OutlineServer_objects (w_db w))) w of
           (Inl x, w1) \<Rightarrow> (Inl (NotAcceptable (Gtf_creation_failed x)), created_keys, w1)
         | (Inr server, w1) \<Rightarrow>
             (case create_keys_gtf e server w1 of
                (Inl x, w2) \<Rightarrow> (Inl (NotAcceptable (Gtf_creation_failed x)), created_keys, w2)
              | (Inr (outline_key_id, outline_key), w2) \<Rightarrow>
                  finish_single e user request_type vd server outline_key_id outline_key
                    created_keys w2))
      else (Inl (NotAcceptable Request_type_is_not_acceptable), created_keys, w))"

text \<open>\<^verbatim>\<open>hash_user_id\<close>: \<^verbatim>\<open>None\<close> for an empty identifier.\<close>

definition hash_user_id :: "env \<Rightarrow> string \<Rightarrow> string option" where
  "hash_user_id e user_id = (if user_id \<noteq> [] then Some (sha512 e user_id) else None)"

text \<open>
  The random request type. \<^verbatim>\<open>list(zip(*active_types))[0]\<close> raises \<^verbatim>\<open>IndexError\<close> when no
  server is active and distributing.
\<close>

definition random_request_type :: "settings \<Rightarrow> world \<Rightarrow> (exn + string) \<times> world" where
  "random_request_type st w =
     (let active_types_list =
            remdups (map s_type
              (filter (\<lambda>s. s_active s \<and> s_is_distributing s) (OutlineServer_objects (w_db w))))
      in if active_types_list = [] then (Inl IndexError, w)
         else if list_all (\<lambda>t. t \<in> set [''gtf'', ''central'']) active_types_list
                 \<and> length active_types_list = 2 then
           (let gtf_weight = (if REAL_VPN_SERVERS st then GTF_PROB_WEIGHT st else 50)
            in case random_choices_weighted gtf_weight w of (t, w') \<Rightarrow> (Inr t, w'))
         else (case random_choices_uniform active_types_list w of (t, w') \<Rightarrow> (Inr t, w')))"

text \<open>The online configuration of the new credential, written in real backend mode.\<close>

definition update_online_config ::
  "settings \<Rightarrow> env \<Rightarrow> outline_user \<Rightarrow> string option \<Rightarrow> world \<Rightarrow> (exn + unit) \<times> world" where
  "update_online_config st e outline_user prefix_str w =
     (if REAL_VPN_SERVERS st then
        (case filter (\<lambda>c. oc_outline_user c = Some (ou_id outline_user))
                (OnlineConfig_objects (w_db w)) of
           [] \<Rightarrow>
             (let file_name = new_file_name e (now w);
                  online_config = \<lparr>oc_file_name = file_name, oc_storage_service = ''s3'',
                                    oc_outline_user = Some (ou_id outline_user)\<rparr>;
                  w1 = set_db ((w_db w)\<lparr>OnlineConfig_objects :=
                                  OnlineConfig_objects (w_db w) @ [online_config]\<rparr>) w;
                  w2 = log_call (S3_put file_name) w1
              in if update_json_file e (now w1) file_name (ou_outline_key outline_user) prefix_str
                 then (Inr (), w2) else (Inl BackendError, w2))
         | [online_config] \<Rightarrow>
             (let w1 = log_call (S3_put (oc_file_name online_config)) w
              in if update_json_file e (now w) (oc_file_name online_config)
                      (ou_outline_key outline_user) prefix_str
                 then (Inr (), w1) else (Inl BackendError, w1))
         | _ \<Rightarrow> (Inl MultipleObjectsReturned, w))
      else (Inr (), w))"

text \<open>The end of \<^verbatim>\<open>create\<close>: the user's earlier legacy keys are removed from their servers
  and deactivated in the database. The list of failed removals is dropped.\<close>

definition retire_last_keys ::
  "settings \<Rightarrow> env \<Rightarrow> outline_user list \<Rightarrow> int option \<Rightarrow> world \<Rightarrow> (exn + unit) \<times> world" where
  "retire_last_keys st e last_keys user_issue_id w =
     (if last_keys \<noteq> [] then
        (case remove_key_from_server st e (get_key_dict last_keys) w of
           (Inl x, w1) \<Rightarrow> (Inl x, w1)
         | (Inr failed, w1) \<Rightarrow>
             (case remove_keys_from_db last_keys user_issue_id (w_db w1) of
                Inl x \<Rightarrow> (Inl x, w1)
              | Inr d' \<Rightarrow> (Inr (), set_db d' w1)))
      else (Inr (), w))"

text \<open>
  The \<^verbatim>\<open>try\<close> block of \<^verbatim>\<open>create\<close> with its handler. \<^verbatim>\<open>transaction.atomic()\<close> undoes the
  database changes of \<^verbatim>\<open>create_keys\<close> when it raises; the draws and the backend calls
  stay. The handler then removes the created keys from the servers, and an exception of
  that removal replaces the one being handled.
\<close>

definition create_keys_atomic ::
  "settings \<Rightarrow> env \<Rightarrow> vpnuser \<Rightarrow> string \<Rightarrow> validated_data \<Rightarrow> world
     \<Rightarrow> (exn + outline_user option \<times> string option \<times> key_dict list) \<times> world" where
  "create_keys_atomic st e user request_type vd w =
     (case create_keys st e user request_type vd [] w of
        (Inr (outline_user, prefix_str), created_keys, w1) \<Rightarrow>
          (Inr (outline_user, prefix_str, created_keys), w1)
      | (Inl exc, created_keys, w1) \<Rightarrow>
          (let w2 = set_db (w_db w) w1
           in if created_keys \<noteq> [] then
                (case remove_key_from_server st e created_keys w2 of
                   (Inl x, w3) \<Rightarrow> (Inl x, w3)
                 | (Inr failed, w3) \<Rightarrow>
                     (Inl (NotAcceptable (Unable_to_create_keys (u_id user) exc)), w3))
              else (Inl (NotAcceptable (Unable_to_create_keys (u_id user) exc)), w2)))"

text \<open>\<^verbatim>\<open>OutlineuserSerializer.create\<close>. The result is the new credential with the list
  \<^verbatim>\<open>created_keys\<close> attached to it. Every branch of \<^verbatim>\<open>create_keys\<close> that returns has
  created a row, so the case of no credential is never reached; reading an attribute of
  \<^verbatim>\<open>None\<close> is what it would do.\<close>

definition create ::
  "settings \<Rightarrow> env \<Rightarrow> validated_data \<Rightarrow> world \<Rightarrow> (exn + outline_user \<times> key_dict list) \<times> world" where
  "create st e vd w =
     (case find (\<lambda>u. Some (u_username u) = hash_user_id e (vd_user vd)) (Vpnuser_objects (w_db w)) of
        None \<Rightarrow> (Inl (NotAcceptable User_does_not_exist), w)
      | Some user \<Rightarrow>
          if filter (\<lambda>k. ou_user k = Some (u_id user) \<and> ou_request_type k \<noteq> ''legacy'')
               (OutlineUser_objects (w_db w)) \<noteq> []
          then (Inl (NotAcceptable User_already_has_a_key), w)
          else if u_banned user then (Inl (NotAcceptable (User_is_banned (u_id user))), w)
          else
            (case random_request_type st w of
               (Inl x, w1) \<Rightarrow> (Inl x, w1)
             | (Inr random_type, w1) \<Rightarrow>
                 (let request_type =
                        (case vd_request_type vd of Some t \<Rightarrow> t | None \<Rightarrow> random_type);
                      last_keys = filter (\<lambda>k. ou_request_type k = ''legacy'')
                                    (outline_keys (w_db w1) user)
                  in case create_keys_atomic st e user request_type vd w1 of
                       (Inl x, w2) \<Rightarrow> (Inl x, w2)
                     | (Inr (None, prefix_str, created_keys), w2) \<Rightarrow> (Inl AttributeError, w2)
                     | (Inr (Some outline_user, prefix_str, created_keys), w2) \<Rightarrow>
                         (case update_online_config st e outline_user prefix_str w2 of
                            (Inl x, w3) \<Rightarrow> (Inl x, w3)
                          | (Inr u, w3) \<Rightarrow>
                              (case retire_last_keys st e last_keys (vd_user_issue vd) w3 of
                                 (Inl x, w4) \<Rightarrow> (Inl x, w4)
                               | (Inr u', w4) \<Rightarrow>
                                   (Inr (outline_user, created_keys), w4))))))"

section \<open>The pool priority of the specification\<close>

text \<open>
  The candidate pools as the specification words them, to be compared with \<open>get_server\<close>:
  a pool is fixed by whether the user's previous servers are excluded and whether the tier
  is restricted to exactly the user's tier or relaxed to that tier or higher. The four
  pools are tried in the priority order below, and the first pool that yields a server
  wins.
\<close>

definition spec_pool ::
  "db \<Rightarrow> vpnuser \<Rightarrow> int \<Rightarrow> int \<Rightarrow> int option \<Rightarrow> bool \<Rightarrow> bool \<Rightarrow> (outline_server \<times> nat) list" where
  "spec_pool d user level dist_model loc exclude_previous exact_tier =
     order_by_usercount_desc (map (\<lambda>s. (s, usercount d s))
       (filter
          (\<lambda>s. s_type s = ''legacy'' \<and> s_active s \<and> s_is_distributing s \<and>
               s_dist_model s = dist_model \<and> s_user_src s = u_channel user \<and>
               (if exact_tier then s_level s = level else s_level s \<ge> level) \<and>
               (truthy loc \<longrightarrow> s_location s = loc) \<and>
               (exclude_previous \<longrightarrow> s_id s \<notin> ou_server ` set (outline_keys d user)))
          (OutlineServer_objects d)))"

definition spec_priority :: "(bool \<times> bool) list" where
  "spec_priority = [(True, True), (True, False), (False, True), (False, False)]"

fun spec_first_pool ::
  "db \<Rightarrow> vpnuser \<Rightarrow> int \<Rightarrow> int \<Rightarrow> int option \<Rightarrow> (bool \<times> bool) list \<Rightarrow> world
     \<Rightarrow> (outline_server \<times> nat) option \<times> world" where
  "spec_first_pool d user level dist_model loc [] w = (None, w)"
| "spec_first_pool d user level dist_model loc ((exclude_previous, exact_tier) # rest) w =
     (case find_server (spec_pool d user level dist_model loc exclude_previous exact_tier) w of
        (Some server, w') \<Rightarrow> (Some server, w')
      | (None, w') \<Rightarrow> spec_first_pool d user level dist_model loc rest w')"

fun spec_locations ::
  "db \<Rightarrow> vpnuser \<Rightarrow> int \<Rightarrow> int \<Rightarrow> int option list \<Rightarrow> world
     \<Rightarrow> (outline_server \<times> nat) list \<times> world" where
  "spec_locations d user level dist_model [] w = ([], w)"
| "spec_locations d user level dist_model (loc # rest) w =
     (case spec_first_pool d user level dist_model loc spec_priority w of
        (found, w') \<Rightarrow>
          (case spec_locations d user level dist_model rest w' of
             (others, w'') \<Rightarrow>
               ((case found of None \<Rightarrow> [] | Some server \<Rightarrow> [server]) @ others, w'')))"

text \<open>The target locations: every active location for the location based model, the
  single given location (or none) otherwise.\<close>

definition target_locations :: "db \<Rightarrow> int \<Rightarrow> location option \<Rightarrow> int option list" where
  "target_locations d dist_model location =
     (if dist_model = LOCATIONED then map (\<lambda>l. Some (l_id l)) (filter l_active (Location_objects d))
      else [map_option l_id location])"

text \<open>The servers that are eligible for a target location: those of its four pools. A
  location has an eligible server when this list is not empty.\<close>

definition candidates ::
  "db \<Rightarrow> vpnuser \<Rightarrow> int \<Rightarrow> int \<Rightarrow> int option \<Rightarrow> (outline_server \<times> nat) list" where
  "candidates d user level dist_model loc =
     concat (map (\<lambda>p. spec_pool d user level dist_model loc (fst p) (snd p)) spec_priority)"

section \<open>Example data\<close>

text \<open>
  Rows in the shape of the fixtures of \<^verbatim>\<open>distribution/tests.py\<close>: a working legacy server
  of the Telegram channel, a user of that channel, and a credential with the column
  defaults of the model.
\<close>

definition tg_server :: "int \<Rightarrow> string \<Rightarrow> int \<Rightarrow> int \<Rightarrow> int option \<Rightarrow> outline_server" where
  "tg_server i t level dist_model loc =
     \<lparr>s_id = i, s_type = t, s_active = True, s_is_blocked = False, s_is_distributing = True,
      s_level = level, s_dist_model = dist_model, s_user_src = ''TG'', s_location = loc,
      s_api_url = Some ''https://api/''\<rparr>"

definition tg_user :: "int \<Rightarrow> string \<Rightarrow> vpnuser" where
  "tg_user i name =
     \<lparr>u_id = i, u_username = name, u_channel = ''TG'', u_reputation = 0, u_banned = False\<rparr>"

definition credential :: "int \<Rightarrow> int \<Rightarrow> int \<Rightarrow> string \<Rightarrow> outline_user" where
  "credential i user server request_type =
     \<lparr>ou_id = i, ou_user = Some user, ou_server = server, ou_outline_key_id = i,
      ou_outline_key = ''ss://key'', ou_reputation = 0, ou_transfer = None,
      ou_user_issue = None, ou_active = True, ou_removed = False, ou_exists_on_server = True,
      ou_group_id = None, ou_delete_date = None, ou_deletion_cause = NA,
      ou_request_type = request_type\<rparr>"

definition empty_db :: db where
  "empty_db =
     \<lparr>Vpnuser_objects = [], OutlineUser_objects = [], OutlineServer_objects = [],
      Location_objects = [], Prefix_objects = [], LoadBalancer_objects = [],
      OnlineConfig_objects = [], Issue_objects = []\<rparr>"

definition settings_local :: settings where
  "settings_local =
     \<lparr>REAL_VPN_SERVERS = False, REPUTATION_MAP = Some [0, 2, 20, 50], GTF_PROB_WEIGHT = 50\<rparr>"

definition settings_real :: settings where
  "settings_real =
     \<lparr>REAL_VPN_SERVERS = True, REPUTATION_MAP = Some [0, 1, 2, 3], GTF_PROB_WEIGHT = 50\<rparr>"

text \<open>The setting of \<^verbatim>\<open>TestReputationSystem\<close>: three location based servers with one
  credential each of user 1, the first two servers blocked, and a basic server with the
  credential of user 3.\<close>

definition reputation_db :: db where
  "reputation_db = empty_db
     \<lparr>Vpnuser_objects := [tg_user 1 ''vuser'', tg_user 3 ''vuser3'', tg_user 5 ''new''],
      OutlineServer_objects :=
        [(tg_server 1 ''legacy'' 0 1 (Some 1))\<lparr>s_is_blocked := True\<rparr>,
         (tg_server 2 ''legacy'' 0 1 (Some 2))\<lparr>s_is_blocked := True\<rparr>,
         tg_server 3 ''legacy'' 0 1 (Some 3),
         tg_server 4 ''legacy'' 2 0 None],
      OutlineUser_objects :=
        [credential 3 3 4 ''legacy'', credential 41 1 1 ''legacy'',
         credential 42 1 2 ''legacy'', credential 43 1 3 ''legacy'']\<rparr>"

text \<open>Backends that answer every request: the manager creates and deletes keys, the
  GTF API answers 200, the configuration upload succeeds; the digest and the two
  rewrites leave their input as it is (as the digest does under test).\<close>

definition quiet_env :: env where
  "quiet_env =
     \<lparr>manager_new = (\<lambda>t s. New_key (10 * s_id s + 1) ''ss://secret@10.0.0.1:443/?outline=1''),
      manager_delete = (\<lambda>t s k. Deleted),
      http_delete = (\<lambda>t url k. Some 200),
      http_get = (\<lambda>t url. Some (200, Some 5)),
      http_get_url = (\<lambda>t url k. Some ''ss://secret@10.0.0.2:443?outline=1''),
      update_json_file = (\<lambda>t f k p. True),
      new_file_name = (\<lambda>t. ''file''),
      sha512 = (\<lambda>x. x),
      replace_port = (\<lambda>k p. k),
      replace_ip = (\<lambda>k h. k)\<rparr>"

text \<open>A third-party server with one credential on it.\<close>

definition gtf_db :: db where
  "gtf_db = empty_db
     \<lparr>Vpnuser_objects := [tg_user 1 ''vuser''],
      OutlineServer_objects := [tg_server 7 ''gtf'' 0 0 None],
      OutlineUser_objects := [credential 70 1 7 ''gtf'']\<rparr>"

text \<open>Three active locations; two of them have a location based legacy server.\<close>

definition located_db :: db where
  "located_db = empty_db
     \<lparr>Vpnuser_objects := [tg_user 1 ''vuser''],
      Location_objects := [\<lparr>l_id = 1, l_active = True\<rparr>, \<lparr>l_id = 2, l_active = True\<rparr>,
                           \<lparr>l_id = 3, l_active = True\<rparr>],
      OutlineServer_objects :=
        [tg_server 1 ''legacy'' 0 1 (Some 1), tg_server 2 ''legacy'' 0 1 (Some 2)]\<rparr>"

text \<open>The same with a server in the third location too.\<close>

definition three_db :: db where
  "three_db = located_db
     \<lparr>OutlineServer_objects :=
        [tg_server 1 ''legacy'' 0 1 (Some 1), tg_server 2 ''legacy'' 0 1 (Some 2),
         tg_server 3 ''legacy'' 0 1 (Some 3)]\<rparr>"

text \<open>The three servers again, with credentials of another user in the groups 4 and 7 and
  one credential without a group.\<close>

definition grouped_db :: db where
  "grouped_db = three_db
     \<lparr>Vpnuser_objects := [tg_user 1 ''vuser'', tg_user 2 ''other''],
      OutlineUser_objects :=
        [(credential 5 2 1 ''legacy'')\<lparr>ou_group_id := Some 4\<rparr>,
         (credential 6 2 2 ''legacy'')\<lparr>ou_group_id := Some 7\<rparr>,
         credential 9 2 3 ''legacy'']\<rparr>"

definition located_request :: validated_data where
  "located_request =
     \<lparr>vd_user = ''vuser'', vd_model = Some 1, vd_request_type = Some ''legacy'',
      vd_user_issue = None\<rparr>"

text \<open>A user whose only credential is a third-party one that is inactive and removed, and
  the same user with that credential active.\<close>

definition retired_gtf_db :: db where
  "retired_gtf_db = gtf_db
     \<lparr>OutlineUser_objects :=
        [(credential 70 1 7 ''gtf'')\<lparr>ou_active := False, ou_removed := True\<rparr>]\<rparr>"

definition gtf_request :: validated_data where
  "gtf_request =
     \<lparr>vd_user = ''vuser'', vd_model = None, vd_request_type = Some ''gtf'',
      vd_user_issue = None\<rparr>"

text \<open>A basic server of the user's tier that the user has used before, and an unused one
  of a higher tier.\<close>

definition priority_db :: db where
  "priority_db = empty_db
     \<lparr>Vpnuser_objects := [tg_user 1 ''vuser''],
      OutlineServer_objects := [tg_server 1 ''legacy'' 0 0 None, tg_server 2 ''legacy'' 1 0 None],
      OutlineUser_objects := [credential 10 1 1 ''legacy'']\<rparr>"

text \<open>A world around a database: no backend call made yet, the generator drawing
  0, 1, 2, ...\<close>

definition world_of :: "db \<Rightarrow> world" where
  "world_of d = \<lparr>w_db = d, w_rng = (\<lambda>n. n), w_calls = []\<rparr>"

section \<open>Verified properties\<close>

text \<open>The equations that evaluate the model on the example data.\<close>

lemmas fixture_defs = reputation_db_def empty_db_def tg_server_def tg_user_def credential_def
  settings_local_def settings_real_def world_of_def quiet_env_def gtf_db_def located_db_def
  three_db_def grouped_db_def located_request_def retired_gtf_db_def gtf_request_def priority_db_def

lemmas eval_defs = fixture_defs
  remove_key_from_server_def remove_one_key_def remove_gtf_def remove_with_manager_def
  get_key_dict_def get_server_row_def mark_not_on_server_def strip_slash_def log_call_def now_def
  create_def hash_user_id_def random_request_type_def random_choices_uniform_def draw_def
  random_choices_weighted_def random_choice_def randint_def
  outline_keys_def create_keys_atomic_def create_keys_def create_keys_legacy_def
  BASIC_def LOCATIONED_def FIXED_IP_def max_group_id_def List.map_filter_def
  increase_reputation_def server_level_def after_new_key_def get_server_def
  get_server_by_level_def find_server_def usercount_def truthy_def order_by_usercount_desc_def
  create_key_on_server_def apply_prefix_def OutlineUser_create_def new_pk_def set_db_def
  save_vpnuser_def update_online_config_def retire_last_keys_def remove_keys_from_db_def
  refresh_from_db_def deactivate_def save_outline_user_def Let_def

subsection \<open>Tiers\<close>

lemma scan_levels_char:
  "scan_levels T r (rev [0 ..< n]) = l \<longleftrightarrow>
     (if \<exists>i<n. T ! i \<le> r then l < n \<and> T ! l \<le> r \<and> (\<forall>j<n. T ! j \<le> r \<longrightarrow> j \<le> l) else l = 0)"
proof (induction n)
  case 0
  show ?case by auto
next
  case (Suc n)
  show ?case
  proof (cases "T ! n \<le> r")
    case True
    then show ?thesis by (auto simp: less_Suc_eq)
  next
    case False
    then show ?thesis using Suc by (auto simp: less_Suc_eq)
  qed
qed

text \<open>
  Claim C7. For every reputation \<open>r\<close> and every threshold list \<open>T\<close> (the list of the
  settings, or the default list when the settings have none; so in particular for every
  non-decreasing list that starts with 0), \<open>server_level\<close> returns the highest index whose
  threshold the reputation reaches, and 0 when it reaches none. The function is total: it
  reads the list only at indices below its length and has no failing branch.
\<close>

theorem server_level_highest:
  assumes "T = (case REPUTATION_MAP st of Some m \<Rightarrow> m | None \<Rightarrow> [0, 1, 2, 3])"
  shows "(if \<exists>i<length T. T ! i \<le> r
          then server_level st r < length T \<and> T ! server_level st r \<le> r \<and>
               (\<forall>j<length T. T ! j \<le> r \<longrightarrow> j \<le> server_level st r)
          else server_level st r = 0)"
proof -
  have "scan_levels T r (rev [0 ..< length T]) = server_level st r"
    by (simp add: server_level_def assms Let_def)
  then show ?thesis
    by (simp only: scan_levels_char)
qed

theorem server_level_highest_witness:
  "server_level settings_local 25 = 2"
proof -
  let ?T = "[0, 2, 20, 50 :: int]"
  let ?l = "server_level settings_local 25"
  have h1: "?T = (case REPUTATION_MAP settings_local of Some m \<Rightarrow> m | None \<Rightarrow> [0, 1, 2, 3])"
    by (simp add: settings_local_def)
  have h2: "\<exists>i<length ?T. ?T ! i \<le> (25 :: int)"
    by (rule exI[of _ 0]) simp
  have all: "?l < length ?T \<and> ?T ! ?l \<le> 25 \<and> (\<forall>j<length ?T. ?T ! j \<le> 25 \<longrightarrow> j \<le> ?l)"
    by (rule iffD1[OF if_P[OF h2] server_level_highest[OF h1, of 25]])
  then have lo: "2 \<le> ?l" by simp
  from all have "?l < 4" and "?T ! ?l \<le> 25" by simp_all
  then have "?l \<noteq> 3" by auto
  with lo \<open>?l < 4\<close> show ?thesis by arith
qed

subsection \<open>Reputation increase\<close>

lemma any_key_working_iff:
  "any_key_working d keys \<longleftrightarrow> (\<exists>key \<in> set keys. server_is_working d key)"
  by (induction keys) auto

text \<open>
  Claim C5. For the basic model \<open>increase_reputation\<close> holds iff the user has a credential
  and the server of the first one is working; for the location based model iff the user
  has a credential and the server of at least one of them is working; it is false for the
  fixed IP model and for a user without credentials. A server is working iff it is not
  blocked, distributing and active.
\<close>

theorem increase_reputation_cases:
  "(dist_model = BASIC \<longrightarrow>
      increase_reputation d user dist_model =
        (\<exists>key s. first_by_pk (outline_keys d user) = Some key \<and>
                 get_server_row d (ou_server key) = Some s \<and> is_working s)) \<and>
   (dist_model = LOCATIONED \<longrightarrow>
      increase_reputation d user dist_model =
        (outline_keys d user \<noteq> [] \<and>
         (\<exists>key \<in> set (outline_keys d user).
            \<exists>s. get_server_row d (ou_server key) = Some s \<and> is_working s))) \<and>
   (dist_model = FIXED_IP \<longrightarrow> \<not> increase_reputation d user dist_model) \<and>
   (outline_keys d user = [] \<longrightarrow> \<not> increase_reputation d user dist_model) \<and>
   (is_working s' = (\<not> s_is_blocked s' \<and> s_is_distributing s' \<and> s_active s'))"
  by (auto simp: increase_reputation_def BASIC_def LOCATIONED_def FIXED_IP_def
        any_key_working_iff server_is_working_def is_working_def
      split: option.splits)

theorem increase_reputation_cases_witness:
  "increase_reputation reputation_db (tg_user 1 ''vuser'') LOCATIONED \<and>
   increase_reputation reputation_db (tg_user 3 ''vuser3'') BASIC \<and>
   \<not> increase_reputation reputation_db (tg_user 1 ''vuser'') BASIC \<and>
   \<not> increase_reputation reputation_db (tg_user 1 ''vuser'') FIXED_IP \<and>
   \<not> increase_reputation reputation_db (tg_user 5 ''new'') BASIC \<and>
   \<not> increase_reputation reputation_db (tg_user 5 ''new'') LOCATIONED"
  using increase_reputation_cases[of LOCATIONED reputation_db "tg_user 1 ''vuser''"]
    increase_reputation_cases[of BASIC reputation_db "tg_user 3 ''vuser3''"]
    increase_reputation_cases[of BASIC reputation_db "tg_user 1 ''vuser''"]
    increase_reputation_cases[of FIXED_IP reputation_db "tg_user 1 ''vuser''"]
    increase_reputation_cases[of BASIC reputation_db "tg_user 5 ''new''"]
    increase_reputation_cases[of LOCATIONED reputation_db "tg_user 5 ''new''"]
  by (simp add: fixture_defs outline_keys_def get_server_row_def is_working_def
        BASIC_def LOCATIONED_def FIXED_IP_def)

subsection \<open>Zero load priority\<close>

lemma zero_scan_finds:
  "\<exists>p \<in> set servers. snd p = 0 \<Longrightarrow>
     \<exists>p. zero_scan servers tot = Inl p \<and> p \<in> set servers \<and> snd p = 0"
  by (induction servers arbitrary: tot) auto

text \<open>
  Claim C6. For every non-empty candidate pool in which some server has a user count of
  zero, \<open>find_server\<close> returns a server of the pool whose count is zero, whatever the state
  of the random generator and whatever the counts of the other servers; it does not even
  draw.
\<close>

theorem find_server_zero_usercount:
  assumes "servers \<noteq> []" and "\<exists>p \<in> set servers. snd p = 0"
  shows "\<exists>p. find_server servers w = (Some p, w) \<and> p \<in> set servers \<and> snd p = 0"
proof (cases "length servers > 1")
  case True
  from zero_scan_finds[OF assms(2), of 0] obtain p where
    "zero_scan servers 0 = Inl p" "p \<in> set servers" "snd p = 0" by blast
  with True show ?thesis by (simp add: find_server_def)
next
  case False
  with assms(1) obtain p where "servers = [p]"
    by (cases servers) auto
  with assms(2) show ?thesis by (simp add: find_server_def)
qed

theorem find_server_zero_usercount_witness:
  "find_server [(tg_server 1 ''legacy'' 0 0 None, 40), (tg_server 2 ''legacy'' 0 0 None, 20),
                (tg_server 3 ''legacy'' 0 0 None, 0)] (world_of empty_db)
     = (Some (tg_server 3 ''legacy'' 0 0 None, 0), world_of empty_db)"
proof -
  let ?pool = "[(tg_server 1 ''legacy'' 0 0 None, 40 :: nat), (tg_server 2 ''legacy'' 0 0 None, 20),
                (tg_server 3 ''legacy'' 0 0 None, 0)]"
  have h1: "?pool \<noteq> []" by simp
  have h2: "\<exists>p \<in> set ?pool. snd p = 0" by simp
  from find_server_zero_usercount[OF h1 h2, of "world_of empty_db"]
  obtain p where "find_server ?pool (world_of empty_db) = (Some p, world_of empty_db)"
    and "p \<in> set ?pool" and "snd p = 0" by blast
  then show ?thesis by auto
qed

subsection \<open>Soft lifecycle\<close>

lemma find_map_replace:
  "i \<in> ou_id ` set rows \<Longrightarrow> ou_id k = i \<Longrightarrow>
     find (\<lambda>r. ou_id r = i) (map (\<lambda>r. if ou_id r = i then k else r) rows) = Some k"
  by (induction rows) auto

lemma find_append_new:
  "i \<notin> ou_id ` set rows \<Longrightarrow> ou_id k = i \<Longrightarrow> find (\<lambda>r. ou_id r = i) (rows @ [k]) = Some k"
  by (induction rows) auto

lemma save_outline_user_find:
  "find (\<lambda>r. ou_id r = ou_id k) (OutlineUser_objects (save_outline_user k d)) = Some k"
  by (simp add: save_outline_user_def find_map_replace find_append_new)

lemma filter_map_replace:
  "ou_id k = i \<Longrightarrow>
     filter (\<lambda>r. ou_id r \<noteq> i) (map (\<lambda>r. if ou_id r = i then k else r) rows) =
     filter (\<lambda>r. ou_id r \<noteq> i) rows"
  by (induction rows) auto

lemma save_outline_user_others:
  "filter (\<lambda>r. ou_id r \<noteq> ou_id k) (OutlineUser_objects (save_outline_user k d)) =
   filter (\<lambda>r. ou_id r \<noteq> ou_id k) (OutlineUser_objects d)"
  by (simp add: save_outline_user_def filter_map_replace)

text \<open>
  Claim C9. On a credential whose request type is \<^verbatim>\<open>legacy\<close>, \<open>deactivate\<close> sets
  \<open>removed\<close>, clears the delete date and the deletion cause and stamps the issue and the
  transfer, \<open>reactivate\<close> clears \<open>removed\<close> and all four; both store the changed object
  under its id and leave the rows of other ids alone. On a credential of any other
  request type both return the object and the database as they were.
\<close>

theorem deactivate_reactivate_legacy_only:
  "(ou_request_type key = ''legacy'' \<longrightarrow>
      (let key' = fst (deactivate key issue transfer d); d' = snd (deactivate key issue transfer d) in
         ou_removed key' \<and> ou_delete_date key' = None \<and> ou_deletion_cause key' = NA \<and>
         ou_user_issue key' = issue \<and> ou_transfer key' = transfer \<and>
         ou_id key' = ou_id key \<and>
         find (\<lambda>r. ou_id r = ou_id key) (OutlineUser_objects d') = Some key' \<and>
         filter (\<lambda>r. ou_id r \<noteq> ou_id key) (OutlineUser_objects d') =
           filter (\<lambda>r. ou_id r \<noteq> ou_id key) (OutlineUser_objects d)) \<and>
      (let key' = fst (reactivate key d); d' = snd (reactivate key d) in
         \<not> ou_removed key' \<and> ou_delete_date key' = None \<and> ou_deletion_cause key' = NA \<and>
         ou_user_issue key' = None \<and> ou_transfer key' = None \<and>
         ou_id key' = ou_id key \<and>
         find (\<lambda>r. ou_id r = ou_id key) (OutlineUser_objects d') = Some key' \<and>
         filter (\<lambda>r. ou_id r \<noteq> ou_id key) (OutlineUser_objects d') =
           filter (\<lambda>r. ou_id r \<noteq> ou_id key) (OutlineUser_objects d))) \<and>
   (ou_request_type key \<noteq> ''legacy'' \<longrightarrow>
      deactivate key issue transfer d = (key, d) \<and> reactivate key d = (key, d))"
  using save_outline_user_find[of "key\<lparr>ou_user_issue := issue, ou_transfer := transfer, ou_removed := True,
                           ou_delete_date := None, ou_deletion_cause := NA\<rparr>" d]
     save_outline_user_others[of "key\<lparr>ou_user_issue := issue, ou_transfer := transfer, ou_removed := True,
                           ou_delete_date := None, ou_deletion_cause := NA\<rparr>" d]
     save_outline_user_find[of "key\<lparr>ou_user_issue := None, ou_transfer := None, ou_removed := False,
                           ou_delete_date := None, ou_deletion_cause := NA\<rparr>" d]
     save_outline_user_others[of "key\<lparr>ou_user_issue := None, ou_transfer := None, ou_removed := False,
                           ou_delete_date := None, ou_deletion_cause := NA\<rparr>" d]
  by (simp add: deactivate_def reactivate_def Let_def)

theorem deactivate_reactivate_legacy_only_witness:
  "ou_removed (fst (deactivate (credential 41 1 1 ''legacy'') (Some 7) (Some 2) reputation_db)) \<and>
   ou_user_issue (fst (deactivate (credential 41 1 1 ''legacy'') (Some 7) (Some 2) reputation_db)) = Some 7 \<and>
   \<not> ou_removed (fst (reactivate ((credential 41 1 1 ''legacy'')\<lparr>ou_removed := True\<rparr>) reputation_db)) \<and>
   deactivate (credential 9 1 1 ''gtf'') (Some 7) (Some 2) reputation_db
     = (credential 9 1 1 ''gtf'', reputation_db) \<and>
   reactivate (credential 9 1 1 ''gtf'') reputation_db = (credential 9 1 1 ''gtf'', reputation_db)"
  using deactivate_reactivate_legacy_only[of "credential 41 1 1 ''legacy''" "Some 7" "Some 2" reputation_db]
    deactivate_reactivate_legacy_only[of "(credential 41 1 1 ''legacy'')\<lparr>ou_removed := True\<rparr>" "Some 7" "Some 2" reputation_db]
    deactivate_reactivate_legacy_only[of "credential 9 1 1 ''gtf''" "Some 7" "Some 2" reputation_db]
  by (simp add: credential_def Let_def)


subsection \<open>Removal in simulated mode\<close>

lemma remove_key_loop_simulated:
  assumes "\<not> REAL_VPN_SERVERS st" and "\<forall>key \<in> set keys. kd_id key \<noteq> None"
  shows "remove_key_loop st e keys failed w =
           (Inr failed, fold (\<lambda>key. mark_not_on_server (the (kd_id key))) keys w)"
  using assms(2)
proof (induction keys arbitrary: failed w)
  case Nil
  show ?case by simp
next
  case (Cons key keys)
  then obtain i where i: "kd_id key = Some i" by auto
  from Cons show ?case using assms(1) i by (simp add: remove_one_key_def)
qed

lemma mark_marked:
  "mark_not_on_server i
     (w\<lparr>w_db := (w_db w)\<lparr>OutlineUser_objects :=
          map (\<lambda>r. if ou_id r \<in> S then r\<lparr>ou_exists_on_server := False\<rparr> else r)
              (OutlineUser_objects (w_db w))\<rparr>\<rparr>) =
   w\<lparr>w_db := (w_db w)\<lparr>OutlineUser_objects :=
          map (\<lambda>r. if ou_id r \<in> insert i S then r\<lparr>ou_exists_on_server := False\<rparr> else r)
              (OutlineUser_objects (w_db w))\<rparr>\<rparr>"
  by (auto simp: mark_not_on_server_def)

lemma fold_mark_gen:
  "fold (\<lambda>key. mark_not_on_server (the (kd_id key))) keys
     (w\<lparr>w_db := (w_db w)\<lparr>OutlineUser_objects :=
          map (\<lambda>r. if ou_id r \<in> S then r\<lparr>ou_exists_on_server := False\<rparr> else r)
              (OutlineUser_objects (w_db w))\<rparr>\<rparr>) =
   w\<lparr>w_db := (w_db w)\<lparr>OutlineUser_objects :=
          map (\<lambda>r. if ou_id r \<in> S \<union> (\<lambda>key. the (kd_id key)) ` set keys
                    then r\<lparr>ou_exists_on_server := False\<rparr> else r)
              (OutlineUser_objects (w_db w))\<rparr>\<rparr>"
proof (induction keys arbitrary: S)
  case Nil
  show ?case by simp
next
  case (Cons key keys)
  have seteq: "insert (the (kd_id key)) S \<union> (\<lambda>key. the (kd_id key)) ` set keys =
               S \<union> (\<lambda>key. the (kd_id key)) ` set (key # keys)"
    by auto
  show ?case
    by (simp only: fold_Cons comp_apply mark_marked Cons seteq)
qed

lemma fold_mark:
  "fold (\<lambda>key. mark_not_on_server (the (kd_id key))) keys w =
     w\<lparr>w_db := (w_db w)\<lparr>OutlineUser_objects :=
          map (\<lambda>r. if ou_id r \<in> (\<lambda>key. the (kd_id key)) ` set keys
                    then r\<lparr>ou_exists_on_server := False\<rparr> else r)
              (OutlineUser_objects (w_db w))\<rparr>\<rparr>"
  using fold_mark_gen[of keys "{}" w] by simp

lemma remove_key_loop_simulated_quiet:
  assumes "\<not> REAL_VPN_SERVERS st" and "remove_key_loop st e keys failed w = (r, w')"
  shows "w_calls w' = w_calls w \<and> w_rng w' = w_rng w \<and> (r = Inr failed \<or> r = Inl (KeyError ''id''))"
  using assms(2)
proof (induction keys arbitrary: w)
  case Nil
  then show ?case by auto
next
  case (Cons key keys)
  show ?case
  proof (cases "kd_id key")
    case None
    with Cons.prems show ?thesis by (auto simp: remove_one_key_def)
  next
    case (Some i)
    with Cons.prems assms(1) have "remove_key_loop st e keys failed (mark_not_on_server i w) = (r, w')"
      by (simp add: remove_one_key_def)
    from Cons.IH[OF this] show ?thesis by (simp add: mark_not_on_server_def)
  qed
qed

text \<open>
  Claim C10, amended. With \<open>REAL_VPN_SERVERS\<close> off, \<open>remove_key_from_server\<close> logs no
  backend call and makes no draw, and whenever it returns a list of failures that list is
  empty. On key dictionaries that all carry their credential's \<^verbatim>\<open>id\<close> (the dictionaries of
  \<^verbatim>\<open>get_key_dict\<close>) it does return, and the world it leaves differs from the given one only
  in the rows whose id is listed, which are marked as not on the server.
\<close>

theorem remove_key_from_server_simulated:
  assumes "\<not> REAL_VPN_SERVERS st"
  shows "w_calls (snd (remove_key_from_server st e keys w)) = w_calls w \<and>
         w_rng (snd (remove_key_from_server st e keys w)) = w_rng w \<and>
         (\<forall>failed_keys. fst (remove_key_from_server st e keys w) = Inr failed_keys \<longrightarrow> failed_keys = []) \<and>
         ((\<forall>key \<in> set keys. kd_id key \<noteq> None) \<longrightarrow>
            remove_key_from_server st e keys w =
              (Inr [],
               w\<lparr>w_db := (w_db w)\<lparr>OutlineUser_objects :=
                    map (\<lambda>r. if Some (ou_id r) \<in> kd_id ` set keys
                              then r\<lparr>ou_exists_on_server := False\<rparr> else r)
                        (OutlineUser_objects (w_db w))\<rparr>\<rparr>))"
proof -
  obtain r w' where R: "remove_key_loop st e keys [] w = (r, w')" by (metis surj_pair)
  from remove_key_loop_simulated_quiet[OF assms R]
  have quiet: "w_calls (snd (remove_key_from_server st e keys w)) = w_calls w \<and>
         w_rng (snd (remove_key_from_server st e keys w)) = w_rng w \<and>
         (\<forall>failed_keys. fst (remove_key_from_server st e keys w) = Inr failed_keys \<longrightarrow> failed_keys = [])"
    using R by (auto simp: remove_key_from_server_def)
  have "remove_key_from_server st e keys w =
              (Inr [],
               w\<lparr>w_db := (w_db w)\<lparr>OutlineUser_objects :=
                    map (\<lambda>r. if Some (ou_id r) \<in> kd_id ` set keys
                              then r\<lparr>ou_exists_on_server := False\<rparr> else r)
                        (OutlineUser_objects (w_db w))\<rparr>\<rparr>)"
    if ids: "\<forall>key \<in> set keys. kd_id key \<noteq> None"
  proof -
    have "\<And>i. (i \<in> (\<lambda>key. the (kd_id key)) ` set keys) = (Some i \<in> kd_id ` set keys)"
      using ids by (force simp: image_iff)
    then show ?thesis
      by (simp add: remove_key_from_server_def remove_key_loop_simulated[OF assms ids] fold_mark)
  qed
  with quiet show ?thesis by blast
qed

theorem remove_key_from_server_simulated_witness:
  "remove_key_from_server settings_local quiet_env
     (get_key_dict [credential 41 1 1 ''legacy'', credential 42 1 2 ''legacy''])
     (world_of reputation_db) =
   (Inr [],
    world_of (reputation_db\<lparr>OutlineUser_objects :=
      [credential 3 3 4 ''legacy'',
       (credential 41 1 1 ''legacy'')\<lparr>ou_exists_on_server := False\<rparr>,
       (credential 42 1 2 ''legacy'')\<lparr>ou_exists_on_server := False\<rparr>,
       credential 43 1 3 ''legacy'']\<rparr>))"
proof -
  have h1: "\<not> REAL_VPN_SERVERS settings_local" by (simp add: settings_local_def)
  have h2: "\<forall>key \<in> set (get_key_dict [credential 41 1 1 ''legacy'', credential 42 1 2 ''legacy'']).
              kd_id key \<noteq> None"
    by (simp add: get_key_dict_def)
  from remove_key_from_server_simulated[OF h1, of quiet_env
      "get_key_dict [credential 41 1 1 ''legacy'', credential 42 1 2 ''legacy'']" "world_of reputation_db"]
    h2
  have "remove_key_from_server settings_local quiet_env
     (get_key_dict [credential 41 1 1 ''legacy'', credential 42 1 2 ''legacy''])
     (world_of reputation_db) =
       (Inr [],
        (world_of reputation_db)\<lparr>w_db := (w_db (world_of reputation_db))\<lparr>OutlineUser_objects :=
           map (\<lambda>r. if Some (ou_id r) \<in> kd_id ` set (get_key_dict [credential 41 1 1 ''legacy'', credential 42 1 2 ''legacy''])
                     then r\<lparr>ou_exists_on_server := False\<rparr> else r)
               (OutlineUser_objects (w_db (world_of reputation_db)))\<rparr>\<rparr>)"
    by blast
  then show ?thesis by (simp add: fixture_defs get_key_dict_def)
qed

text \<open>Claim C10 as the specification states it does not hold: on a list whose second
  dictionary has no \<^verbatim>\<open>id\<close> (the shape of the entries of \<^verbatim>\<open>created_keys\<close>), the call
  raises \<^verbatim>\<open>KeyError\<close> instead of returning the empty list, and only the first key is
  marked.\<close>

theorem remove_without_id_raises:
  "remove_key_from_server settings_local quiet_env
     (get_key_dict [credential 41 1 1 ''legacy''] @
      [\<lparr>kd_id = None, kd_outline_key_id = 42, kd_server = 2, kd_outline_key = ''ss://key'',
        kd_exists_on_server = Some True\<rparr>])
     (world_of reputation_db) =
   (Inl (KeyError ''id''),
    world_of (reputation_db\<lparr>OutlineUser_objects :=
      [credential 3 3 4 ''legacy'',
       (credential 41 1 1 ''legacy'')\<lparr>ou_exists_on_server := False\<rparr>,
       credential 42 1 2 ''legacy'',
       credential 43 1 3 ''legacy'']\<rparr>))"
  by (simp add: eval_defs)

subsection \<open>Removal of a third-party key\<close>

text \<open>
  Claim C3, evaluated where it fails. In real backend mode, a key of an active third-party
  server whose \<^verbatim>\<open>DELETE\<close> request answers 404 is marked as not on the server; the code
  then goes on into the part written for central and legacy servers, calls the Outline
  manager for the same key, and, when that call raises, reports the key as failed.
\<close>

theorem remove_gtf_404_reported_failed:
  "remove_key_from_server settings_real
     (quiet_env\<lparr>http_delete := (\<lambda>t url k. Some 404), manager_delete := (\<lambda>t s k. OtherException)\<rparr>)
     (get_key_dict [credential 70 1 7 ''gtf'']) (world_of gtf_db) =
   (Inr [70],
    (world_of (gtf_db\<lparr>OutlineUser_objects := [(credential 70 1 7 ''gtf'')\<lparr>ou_exists_on_server := False\<rparr>]\<rparr>))
      \<lparr>w_calls := [Http_delete ''https://api'' 70, Manager_delete 7 70]\<rparr>)"
  by (simp add: eval_defs)

subsection \<open>Rollback of a partial batch\<close>

lemma legacy_loop_created_keys:
  assumes "legacy_loop st e user gid rep servers cks ou p w = (r, cks', w')"
      and "\<forall>k \<in> set cks. kd_id k = None"
  shows "\<forall>k \<in> set cks'. kd_id k = None"
  using assms
proof (induction servers arbitrary: cks ou p w)
  case Nil
  then show ?case by simp
next
  case (Cons server rest)
  show ?case
  proof (cases "create_key_on_server st e (fst server) w")
    case (Pair r1 w1)
    show ?thesis
    proof (cases r1)
      case (Inl x)
      with Cons.prems Pair show ?thesis by auto
    next
      case (Inr key)
      obtain kid key0 where key: "key = (kid, key0)" by (cases key)
      obtain pfx k2 w2 where a: "apply_prefix e key0 w1 = ((pfx, k2), w2)" by (metis surj_pair)
      obtain row d' where o:
        "OutlineUser_create kid k2 user (fst server) gid rep ''legacy'' (w_db w2) = (row, d')"
        by (metis surj_pair)
      let ?ck = "\<lparr>kd_id = None, kd_outline_key_id = kid, kd_server = s_id (fst server),
                  kd_outline_key = k2, kd_exists_on_server = Some True\<rparr>"
      from Cons.prems(1) Pair Inr key a o have
        "legacy_loop st e user gid rep rest (cks @ [?ck]) (Some row) pfx (set_db d' w2) = (r, cks', w')"
        by (simp add: Let_def)
      then show ?thesis
        by (rule Cons.IH) (use Cons.prems(2) in auto)
    qed
  qed
qed

lemma create_keys_created_keys:
  assumes "create_keys st e user request_type vd [] w = (r, cks, w')"
  shows "\<forall>k \<in> set cks. kd_id k = None"
proof (cases "request_type = ''legacy''")
  case True
  with assms show ?thesis
    by (auto simp: create_keys_def create_keys_legacy_def Let_def
        split: prod.splits if_splits sum.splits
        dest!: legacy_loop_created_keys)
next
  case False
  with assms show ?thesis
    by (auto simp: create_keys_def finish_single_def Let_def
        split: prod.splits if_splits sum.splits)
qed

lemma remove_key_loop_no_id:
  "keys \<noteq> [] \<Longrightarrow> \<forall>k \<in> set keys. kd_id k = None \<Longrightarrow>
     remove_key_loop st e keys failed w = (Inl (KeyError ''id''), w)"
  by (cases keys) (auto simp: remove_one_key_def)

text \<open>
  Whenever \<open>create_keys\<close> raises after it has created a key, in any mode and for any
  request type, the handler's call of \<open>remove_key_from_server\<close> raises \<^verbatim>\<open>KeyError\<close> at
  the first dictionary: no key is removed from a server, and the world is the one
  \<open>create_keys\<close> left, with the database of before.
\<close>

lemma rollback_never_revokes:
  assumes "create_keys st e user request_type vd [] w = (Inl exc, created_keys, w1)"
      and "created_keys \<noteq> []"
  shows "create_keys_atomic st e user request_type vd w = (Inl (KeyError ''id''), set_db (w_db w) w1)"
  using assms remove_key_loop_no_id[OF assms(2) create_keys_created_keys[OF assms(1)]]
  by (simp add: create_keys_atomic_def remove_key_from_server_def Let_def)

text \<open>
  Claim C1, evaluated where it fails. In real backend mode, a location based request for
  two servers whose second provisioning call raises: the handler of \<open>create\<close> passes the
  list \<^verbatim>\<open>created_keys\<close> to \<open>remove_key_from_server\<close>, whose first statement reads the entry
  \<^verbatim>\<open>id\<close> that these dictionaries do not have. The call ends with \<^verbatim>\<open>KeyError\<close>, not with
  the allocation error; the database is as before, and the log of backend calls holds the
  two provisioning calls and no removal, so the key created on the first server stays.
\<close>

theorem rollback_raises_KeyError:
  "create settings_real
     (quiet_env\<lparr>manager_new := (\<lambda>t s. if s_id s = 2 then New_raises
                                       else New_key 11 ''ss://secret@10.0.0.1:443/?outline=1'')\<rparr>)
     located_request (world_of located_db) =
   (Inl (KeyError ''id''),
    \<lparr>w_db = located_db, w_rng = (\<lambda>n. Suc n), w_calls = [Manager_new 1, Manager_new 2]\<rparr>)"
  by (simp add: eval_defs)

subsection \<open>Pool priority\<close>

lemma weighted_walk_Some:
  "servers \<noteq> [] \<Longrightarrow> weighted_walk servers tot prob cur \<in> Some ` set servers"
proof (induction servers arbitrary: prob cur)
  case Nil
  then show ?case by simp
next
  case (Cons s rest)
  show ?case
  proof (cases "rest = []")
    case True
    then show ?thesis by (simp add: Let_def)
  next
    case False
    from Cons.IH[OF this] show ?thesis by (auto simp: Let_def)
  qed
qed

lemma zero_scan_Inl_mem: "zero_scan servers tot = Inl p \<Longrightarrow> p \<in> set servers"
  by (induction servers arbitrary: tot) (auto split: if_splits)

lemma find_server_empty: "find_server [] w = (None, w)"
  by (simp add: find_server_def)

lemma find_server_nonempty:
  assumes "servers \<noteq> []"
  shows "\<exists>p w'. find_server servers w = (Some p, w') \<and> p \<in> set servers"
proof (cases "length servers > 1")
  case True
  show ?thesis
  proof (cases "zero_scan servers 0")
    case (Inl p)
    with True zero_scan_Inl_mem[OF Inl] show ?thesis by (simp add: find_server_def)
  next
    case (Inr tot)
    obtain prob w' where r: "randint 0 100 w = (prob, w')" by (cases "randint 0 100 w")
    from weighted_walk_Some[OF assms, of tot "of_int prob" None] True Inr r
    show ?thesis by (auto simp: find_server_def)
  qed
next
  case False
  with assms obtain p where "servers = [p]" by (cases servers) auto
  then show ?thesis by (simp add: find_server_def)
qed

lemma find_server_None_iff: "fst (find_server servers w) = None \<longleftrightarrow> servers = []"
  using find_server_nonempty[of servers w] by (cases "servers = []") (auto simp: find_server_empty)

lemma order_by_empty: "order_by_usercount_desc xs = [] \<longleftrightarrow> xs = []"
  by (metis order_by_usercount_desc_def length_sort length_0_conv)

lemma get_server_by_level_filter:
  "get_server_by_level d user level limited exclude dist_model loc =
     order_by_usercount_desc (map (\<lambda>s. (s, usercount d s))
       (filter
          (\<lambda>s. s_type s = ''legacy'' \<and> s_active s \<and> s_is_distributing s \<and>
               s_dist_model s = dist_model \<and> s_user_src s = u_channel user \<and>
               (if limited then s_level s = level else s_level s > level) \<and>
               (truthy loc \<longrightarrow> s_location s = loc) \<and>
               (exclude \<longrightarrow> s_id s \<notin> ou_server ` set (outline_keys d user)))
          (OutlineServer_objects d)))"
  unfolding get_server_by_level_def Let_def outline_keys_def
  by (auto intro!: arg_cong[where f = order_by_usercount_desc] arg_cong[where f = "map _"] filter_cong)

lemma exact_pool:
  "get_server_by_level d user level True exclude dist_model loc =
     spec_pool d user level dist_model loc exclude True"
  by (simp add: get_server_by_level_filter spec_pool_def)

lemma relaxed_pool:
  assumes "spec_pool d user level dist_model loc exclude True = []"
  shows "get_server_by_level d user level False exclude dist_model loc =
           spec_pool d user level dist_model loc exclude False"
proof -
  from assms have none:
    "\<And>s. s \<in> set (OutlineServer_objects d) \<Longrightarrow>
       s_type s = ''legacy'' \<Longrightarrow> s_active s \<Longrightarrow> s_is_distributing s \<Longrightarrow>
       s_dist_model s = dist_model \<Longrightarrow> s_user_src s = u_channel user \<Longrightarrow>
       (truthy loc \<longrightarrow> s_location s = loc) \<Longrightarrow>
       (exclude \<longrightarrow> s_id s \<notin> ou_server ` set (outline_keys d user)) \<Longrightarrow>
       s_level s \<noteq> level"
    by (auto simp: spec_pool_def order_by_empty filter_empty_conv)
  have "filter
          (\<lambda>s. s_type s = ''legacy'' \<and> s_active s \<and> s_is_distributing s \<and>
               s_dist_model s = dist_model \<and> s_user_src s = u_channel user \<and>
               (if False then s_level s = level else s_level s > level) \<and>
               (truthy loc \<longrightarrow> s_location s = loc) \<and>
               (exclude \<longrightarrow> s_id s \<notin> ou_server ` set (outline_keys d user)))
          (OutlineServer_objects d) =
        filter
          (\<lambda>s. s_type s = ''legacy'' \<and> s_active s \<and> s_is_distributing s \<and>
               s_dist_model s = dist_model \<and> s_user_src s = u_channel user \<and>
               (if False then s_level s = level else s_level s \<ge> level) \<and>
               (truthy loc \<longrightarrow> s_location s = loc) \<and>
               (exclude \<longrightarrow> s_id s \<notin> ou_server ` set (outline_keys d user)))
          (OutlineServer_objects d)"
    by (rule filter_cong[OF refl]) (use none in force)
  then show ?thesis
    by (simp only: get_server_by_level_filter spec_pool_def)
qed

lemma spec_first_pool_pair:
  "spec_first_pool d user level dist_model loc ((exclude, True) # (exclude, False) # rest) w =
     (case limited_loop d user level exclude dist_model loc [True, False] w of
        (Some server, w') \<Rightarrow> (Some server, w')
      | (None, w') \<Rightarrow> spec_first_pool d user level dist_model loc rest w')"
proof (cases "spec_pool d user level dist_model loc exclude True = []")
  case True
  then show ?thesis
    by (simp add: exact_pool relaxed_pool find_server_empty split: prod.splits option.splits)
next
  case False
  from find_server_nonempty[OF False, of w] show ?thesis
    by (auto simp: exact_pool)
qed

lemma exclude_loop_spec:
  "exclude_loop d user level dist_model loc [True, False] w =
     spec_first_pool d user level dist_model loc spec_priority w"
  by (simp only: spec_priority_def spec_first_pool_pair exclude_loop.simps spec_first_pool.simps(1))

lemma location_loop_spec:
  "location_loop d user level dist_model locs acc w =
     (case spec_locations d user level dist_model (map (map_option l_id) locs) w of
        (found, w') \<Rightarrow> (acc @ found, w'))"
proof (induction locs arbitrary: acc w)
  case Nil
  show ?case by simp
next
  case (Cons loc locs)
  show ?case
    by (simp add: exclude_loop_spec Cons del: exclude_loop.simps
        split: prod.splits option.splits)
qed

lemma spec_first_pool_all_empty:
  assumes "\<forall>p \<in> set ps. spec_pool d user level dist_model loc (fst p) (snd p) = []"
  shows "spec_first_pool d user level dist_model loc ps w = (None, w)"
  using assms by (induction ps arbitrary: w) (auto simp: find_server_empty)

lemma location_loop_spec_start:
  "location_loop d user level dist_model locs [] w =
     spec_locations d user level dist_model (map (map_option l_id) locs) w"
  by (simp add: location_loop_spec split: prod.splits)

lemma get_server_spec_locations:
  "get_server user level dist_model location w =
     spec_locations (w_db w) user level dist_model
       (target_locations (w_db w) dist_model location) w"
  by (simp add: get_server_def target_locations_def location_loop_spec_start comp_def
      del: location_loop.simps)

text \<open>
  Claim C4. \<open>get_server\<close> computes what the specification describes: for each target
  location in turn, the four pools (exclude previous servers, exact tier), (exclude
  previous, tier or higher), (no exclusion, exact tier), (no exclusion, tier or higher) are
  tried in this order and the first one in which \<open>find_server\<close> finds a server wins; a
  location whose pools are all empty adds nothing. In particular, outside the location
  based model the result is the empty list when the four pools of the one target are
  empty. The code's relaxed pools hold the servers of a strictly higher tier; they are
  tried only after the pool of the exact tier was found empty, where the two readings
  select the same servers.
\<close>

theorem get_server_priority:
  "get_server user level dist_model location w =
     spec_locations (w_db w) user level dist_model
       (target_locations (w_db w) dist_model location) w \<and>
   (dist_model \<noteq> LOCATIONED \<and>
    (\<forall>p \<in> set spec_priority.
       spec_pool (w_db w) user level dist_model (map_option l_id location) (fst p) (snd p) = [])
    \<longrightarrow> get_server user level dist_model location w = ([], w))"
  by (simp only: get_server_spec_locations)
     (simp add: target_locations_def spec_first_pool_all_empty)

theorem get_server_priority_witness:
  "get_server (tg_user 1 ''vuser'') 0 BASIC None (world_of priority_db) =
     ([(tg_server 2 ''legacy'' 1 0 None, 0)], world_of priority_db) \<and>
   get_server (tg_user 1 ''vuser'') 2 BASIC None (world_of priority_db) = ([], world_of priority_db)"
proof -
  have a: "get_server (tg_user 1 ''vuser'') 0 BASIC None (world_of priority_db) =
     ([(tg_server 2 ''legacy'' 1 0 None, 0)], world_of priority_db)"
    by (simp only: get_server_priority[THEN conjunct1])
       (simp add: fixture_defs target_locations_def spec_priority_def spec_pool_def BASIC_def
          LOCATIONED_def find_server_def truthy_def order_by_usercount_desc_def usercount_def
          outline_keys_def)
  have h: "BASIC \<noteq> LOCATIONED \<and>
    (\<forall>p \<in> set spec_priority.
       spec_pool (w_db (world_of priority_db)) (tg_user 1 ''vuser'') 2 BASIC (map_option l_id None)
         (fst p) (snd p) = [])"
    by (simp add: fixture_defs spec_priority_def spec_pool_def BASIC_def
          LOCATIONED_def truthy_def order_by_usercount_desc_def usercount_def outline_keys_def)
  from get_server_priority[THEN conjunct2, rule_format, OF h] a show ?thesis by simp
qed

subsection \<open>Duplicate keys\<close>

lemma remove_one_key_not_NotAcceptable:
  "remove_one_key st e key failed w \<noteq> (Inl (NotAcceptable x), w')"
  by (auto simp: remove_one_key_def remove_gtf_def remove_with_manager_def Let_def
      split: option.splits if_splits prod.splits sum.splits delete_outcome.splits)

lemma remove_key_loop_not_NotAcceptable:
  "remove_key_loop st e keys failed w \<noteq> (Inl (NotAcceptable x), w')"
proof (induction keys arbitrary: failed w)
  case Nil
  show ?case by simp
next
  case (Cons key keys)
  show ?case
    using remove_one_key_not_NotAcceptable Cons
    by (auto split: prod.splits sum.splits)
qed

lemma deactivate_loop_not_NotAcceptable:
  "deactivate_loop keys issue d \<noteq> Inl (NotAcceptable x)"
  by (induction keys arbitrary: d)
     (auto simp: refresh_from_db_def split: option.splits sum.splits issue_argument.splits)

lemma create_keys_atomic_not_duplicate:
  "create_keys_atomic st e user request_type vd w \<noteq> (Inl (NotAcceptable User_already_has_a_key), w')"
  by (auto simp: create_keys_atomic_def remove_key_from_server_def Let_def
        remove_key_loop_not_NotAcceptable
      split: prod.splits sum.splits if_splits)

lemma random_request_type_not_NotAcceptable:
  "random_request_type st w \<noteq> (Inl (NotAcceptable x), w')"
  by (auto simp: random_request_type_def Let_def split: prod.splits if_splits)

lemma update_online_config_not_NotAcceptable:
  "update_online_config st e ou p w \<noteq> (Inl (NotAcceptable x), w')"
  by (auto simp: update_online_config_def Let_def split: list.splits if_splits)

lemma retire_last_keys_not_NotAcceptable:
  "retire_last_keys st e keys issue w \<noteq> (Inl (NotAcceptable x), w')"
  by (auto simp: retire_last_keys_def remove_key_from_server_def remove_keys_from_db_def Let_def
        remove_key_loop_not_NotAcceptable deactivate_loop_not_NotAcceptable
      split: prod.splits sum.splits if_splits option.splits)

text \<open>
  Claim C2, amended. \<open>create\<close> fails with the duplicate key error iff the user exists and
  some credential of the user has a request type other than \<^verbatim>\<open>legacy\<close>, whatever its
  \<open>active\<close> and \<open>removed\<close> flags are; the call then leaves the database, the generator and
  the backends as they were.
\<close>

theorem create_duplicate_key:
  "(fst (create st e vd w) = Inl (NotAcceptable User_already_has_a_key) \<longleftrightarrow>
      (\<exists>user. find (\<lambda>u. Some (u_username u) = hash_user_id e (vd_user vd))
                 (Vpnuser_objects (w_db w)) = Some user \<and>
              (\<exists>k \<in> set (OutlineUser_objects (w_db w)).
                 ou_user k = Some (u_id user) \<and> ou_request_type k \<noteq> ''legacy''))) \<and>
   (fst (create st e vd w) = Inl (NotAcceptable User_already_has_a_key) \<longrightarrow>
      snd (create st e vd w) = w)"
proof (cases "find (\<lambda>u. Some (u_username u) = hash_user_id e (vd_user vd)) (Vpnuser_objects (w_db w))")
  case None
  then show ?thesis by (simp add: create_def)
next
  case (Some user)
  show ?thesis
  proof (cases "filter (\<lambda>k. ou_user k = Some (u_id user) \<and> ou_request_type k \<noteq> ''legacy'')
               (OutlineUser_objects (w_db w)) = []")
    case False
    then have "\<exists>k \<in> set (OutlineUser_objects (w_db w)).
                 ou_user k = Some (u_id user) \<and> ou_request_type k \<noteq> ''legacy''"
      by (auto simp: filter_empty_conv)
    with Some False show ?thesis by (simp add: create_def)
  next
    case True
    then have no: "\<not> (\<exists>k \<in> set (OutlineUser_objects (w_db w)).
                 ou_user k = Some (u_id user) \<and> ou_request_type k \<noteq> ''legacy'')"
      by (auto simp: filter_empty_conv)
    have "fst (create st e vd w) \<noteq> Inl (NotAcceptable User_already_has_a_key)"
      using Some True
      by (auto simp: create_def Let_def random_request_type_not_NotAcceptable
            create_keys_atomic_not_duplicate update_online_config_not_NotAcceptable
            retire_last_keys_not_NotAcceptable
          split: prod.splits sum.splits option.splits)
    with Some no show ?thesis by simp
  qed
qed

text \<open>Claim C2 as the specification states it does not hold: a user whose only third-party
  credential is inactive and removed is rejected all the same.\<close>

theorem duplicate_despite_retired_key:
  "fst (create settings_local quiet_env gtf_request (world_of retired_gtf_db)) =
     Inl (NotAcceptable User_already_has_a_key) \<and>
   filter (\<lambda>k. ou_user k = Some 1 \<and> ou_active k \<and> \<not> ou_removed k \<and> ou_request_type k \<noteq> ''legacy'')
     (OutlineUser_objects retired_gtf_db) = []"
  by (simp add: eval_defs)

theorem create_duplicate_key_witness:
  "fst (create settings_local quiet_env gtf_request (world_of gtf_db)) =
     Inl (NotAcceptable User_already_has_a_key) \<and>
   snd (create settings_local quiet_env gtf_request (world_of gtf_db)) = world_of gtf_db"
proof -
  have "\<exists>user. find (\<lambda>u. Some (u_username u) = hash_user_id quiet_env (vd_user gtf_request))
                 (Vpnuser_objects (w_db (world_of gtf_db))) = Some user \<and>
              (\<exists>k \<in> set (OutlineUser_objects (w_db (world_of gtf_db))).
                 ou_user k = Some (u_id user) \<and> ou_request_type k \<noteq> ''legacy'')"
    by (simp add: fixture_defs hash_user_id_def)
  with create_duplicate_key[of settings_local quiet_env gtf_request "world_of gtf_db"]
  show ?thesis by blast
qed

subsection \<open>Location based groups\<close>

lemma draw_db: "draw w = (r, w') \<Longrightarrow> w_db w' = w_db w"
  by (auto simp: draw_def)

lemma randint_db: "randint a b w = (r, w') \<Longrightarrow> w_db w' = w_db w"
  by (auto simp: randint_def draw_def split: prod.splits)

lemma random_choice_db: "random_choice xs w = (r, w') \<Longrightarrow> w_db w' = w_db w"
  by (auto simp: random_choice_def draw_def split: if_splits prod.splits)

lemma create_key_on_server_db: "create_key_on_server st e s w = (r, w') \<Longrightarrow> w_db w' = w_db w"
  by (auto simp: create_key_on_server_def randint_def draw_def log_call_def Let_def
      split: if_splits prod.splits new_key_outcome.splits)

lemma apply_prefix_db: "apply_prefix e k w = (r, w') \<Longrightarrow> w_db w' = w_db w"
  by (auto simp: apply_prefix_def dest: random_choice_db split: prod.splits sum.splits)

lemma find_server_db: "find_server servers w = (r, w') \<Longrightarrow> w_db w' = w_db w"
  by (auto simp: find_server_def dest: randint_db split: if_splits sum.splits prod.splits list.splits)

lemma limited_loop_db:
  "limited_loop d user level exclude dm loc ls w = (r, w') \<Longrightarrow> w_db w' = w_db w"
  by (induction ls arbitrary: w) (auto dest: find_server_db split: prod.splits option.splits)

lemma exclude_loop_db:
  "exclude_loop d user level dm loc es w = (r, w') \<Longrightarrow> w_db w' = w_db w"
  by (induction es arbitrary: w)
     (auto dest: limited_loop_db simp del: limited_loop.simps split: prod.splits option.splits)

lemma location_loop_db_length:
  "location_loop d user level dm locs acc w = (r, w') \<Longrightarrow>
     w_db w' = w_db w \<and> length r \<le> length acc + length locs"
proof (induction locs arbitrary: acc w)
  case Nil
  then show ?case by simp
next
  case (Cons loc locs)
  obtain f w1 where f: "exclude_loop d user level dm (map_option l_id loc) [True, False] w = (f, w1)"
    by (cases "exclude_loop d user level dm (map_option l_id loc) [True, False] w")
  from exclude_loop_db[OF f] have db: "w_db w1 = w_db w" .
  show ?case
  proof (cases f)
    case None
    with Cons.prems f have "location_loop d user level dm locs acc w1 = (r, w')"
      by (simp del: exclude_loop.simps)
    from Cons.IH[OF this] db show ?thesis by simp
  next
    case (Some s)
    with Cons.prems f have "location_loop d user level dm locs (acc @ [s]) w1 = (r, w')"
      by (simp del: exclude_loop.simps)
    from Cons.IH[OF this] db show ?thesis by simp
  qed
qed

lemma get_server_db_length:
  "get_server user level dm location w = (r, w') \<Longrightarrow>
     w_db w' = w_db w \<and>
     (dm = LOCATIONED \<longrightarrow> length r \<le> length (filter l_active (Location_objects (w_db w))))"
proof (cases "dm = LOCATIONED")
  case True
  assume "get_server user level dm location w = (r, w')"
  with True have "location_loop (w_db w) user level dm
      (map Some (filter l_active (Location_objects (w_db w)))) [] w = (r, w')"
    by (simp add: get_server_def del: location_loop.simps)
  from location_loop_db_length[OF this] show ?thesis by simp
next
  case False
  assume "get_server user level dm location w = (r, w')"
  with False have "location_loop (w_db w) user level dm [location] [] w = (r, w')"
    by (simp add: get_server_def del: location_loop.simps)
  from location_loop_db_length[OF this] False show ?thesis by simp
qed

lemma fold_max_ge: "fold max xs (a::int) \<ge> a \<and> (\<forall>x \<in> set xs. x \<le> fold max xs a)"
proof (induction xs arbitrary: a)
  case Nil
  show ?case by simp
next
  case (Cons x xs)
  from Cons[of "max x a"] show ?case by auto
qed

lemma new_pk_fresh: "r \<in> set (OutlineUser_objects d) \<Longrightarrow> ou_id r < new_pk d"
  using fold_max_ge[of 0 "map ou_id (OutlineUser_objects d)"] by (force simp: new_pk_def)

lemma new_pk_mono:
  "new_pk d \<le> new_pk (d\<lparr>OutlineUser_objects := OutlineUser_objects d @ rows\<rparr>)"
proof -
  have "\<And>a. fold max (map ou_id rows) (a::int) \<ge> a" using fold_max_ge by blast
  then show ?thesis by (simp add: new_pk_def)
qed

lemma legacy_loop_rows:
  assumes "legacy_loop st e user gid rep servers cks ou p w = (Inr (ou', p'), cks', w')"
  shows "\<exists>new cks_new.
           OutlineUser_objects (w_db w') = OutlineUser_objects (w_db w) @ new \<and>
           cks' = cks @ cks_new \<and>
           map ou_server new = map (s_id \<circ> fst) servers \<and>
           map kd_server cks_new = map (s_id \<circ> fst) servers \<and>
           (\<forall>r \<in> set new. ou_group_id r = gid \<and> new_pk (w_db w) \<le> ou_id r) \<and>
           (servers \<noteq> [] \<longrightarrow> ou' \<in> Some ` set new)"
  using assms
proof (induction servers arbitrary: cks ou p w)
  case Nil
  then show ?case by simp
next
  case (Cons server rest)
  from Cons.prems obtain kid key0 w1 where
    c: "create_key_on_server st e (fst server) w = (Inr (kid, key0), w1)"
    by (auto split: prod.splits sum.splits)
  obtain pfx key w2 where a: "apply_prefix e key0 w1 = ((pfx, key), w2)"
    by (metis surj_pair)
  obtain row d' where o: "OutlineUser_create kid key user (fst server) gid rep ''legacy'' (w_db w2) = (row, d')"
    by (metis surj_pair)
  let ?ck = "\<lparr>kd_id = None, kd_outline_key_id = kid, kd_server = s_id (fst server),
              kd_outline_key = key, kd_exists_on_server = Some True\<rparr>"
  from Cons.prems c a o have rec:
    "legacy_loop st e user gid rep rest (cks @ [?ck]) (Some row) pfx (set_db d' w2) = (Inr (ou', p'), cks', w')"
    by (simp add: Let_def)
  have db2: "w_db w2 = w_db w"
    using create_key_on_server_db[OF c] apply_prefix_db[OF a] by simp
  from o db2 have row: "ou_server row = s_id (fst server)" "ou_group_id row = gid"
      "ou_id row = new_pk (w_db w)"
      and d': "d' = (w_db w)\<lparr>OutlineUser_objects := OutlineUser_objects (w_db w) @ [row]\<rparr>"
    by (auto simp: OutlineUser_create_def Let_def)
  from Cons.IH[OF rec] obtain new cks_new where IH:
    "OutlineUser_objects (w_db w') = OutlineUser_objects (w_db (set_db d' w2)) @ new"
    "cks' = (cks @ [?ck]) @ cks_new"
    "map ou_server new = map (s_id \<circ> fst) rest"
    "map kd_server cks_new = map (s_id \<circ> fst) rest"
    "\<forall>r \<in> set new. ou_group_id r = gid \<and> new_pk (w_db (set_db d' w2)) \<le> ou_id r"
    "rest \<noteq> [] \<longrightarrow> ou' \<in> Some ` set new"
    by blast
  have mono: "new_pk (w_db w) \<le> new_pk (w_db (set_db d' w2))"
    using new_pk_mono[of "w_db w" "[row]"] by (simp add: set_db_def d')
  have last: "rest = [] \<Longrightarrow> ou' = Some row"
    using rec by simp
  show ?case
    apply (rule exI[of _ "row # new"])
    apply (rule exI[of _ "?ck # cks_new"])
    using IH row mono last by (auto simp: set_db_def d')
qed

lemma spec_first_pool_result:
  "spec_first_pool d user level dm loc ps w = (r, w') \<Longrightarrow>
     (case r of
        None \<Rightarrow> \<forall>p \<in> set ps. spec_pool d user level dm loc (fst p) (snd p) = []
      | Some s \<Rightarrow> \<exists>p \<in> set ps. s \<in> set (spec_pool d user level dm loc (fst p) (snd p)))"
proof (induction ps arbitrary: w)
  case Nil
  then show ?case by auto
next
  case (Cons p ps)
  obtain ex lim where p: "p = (ex, lim)" by (cases p)
  show ?case
  proof (cases "spec_pool d user level dm loc ex lim = []")
    case True
    with Cons.prems p have "spec_first_pool d user level dm loc ps w = (r, w')"
      by (simp add: find_server_empty)
    from Cons.IH[OF this] True p show ?thesis by (auto split: option.splits)
  next
    case False
    from find_server_nonempty[OF False, of w] obtain s w1 where
      "find_server (spec_pool d user level dm loc ex lim) w = (Some s, w1)"
      "s \<in> set (spec_pool d user level dm loc ex lim)" by blast
    with Cons.prems p show ?thesis by auto
  qed
qed

lemma spec_first_pool_candidates:
  assumes "spec_first_pool d user level dm loc spec_priority w = (r, w')"
  shows "(r = None \<longleftrightarrow> candidates d user level dm loc = []) \<and>
         (\<forall>s. r = Some s \<longrightarrow> s \<in> set (candidates d user level dm loc))"
proof (cases r)
  case None
  with spec_first_pool_result[OF assms] show ?thesis by (simp add: candidates_def)
next
  case (Some s)
  with spec_first_pool_result[OF assms] obtain p where
    p: "p \<in> set spec_priority" "s \<in> set (spec_pool d user level dm loc (fst p) (snd p))"
    by auto
  then have "s \<in> set (candidates d user level dm loc)"
    by (auto simp: candidates_def)
  moreover from this have "candidates d user level dm loc \<noteq> []" by auto
  ultimately show ?thesis using Some by simp
qed

lemma spec_locations_served:
  "spec_locations d user level dm locs w = (found, w') \<Longrightarrow>
     list_all2 (\<lambda>s loc. s \<in> set (candidates d user level dm loc)) found
       (filter (\<lambda>loc. candidates d user level dm loc \<noteq> []) locs)"
proof (induction locs arbitrary: w found w')
  case Nil
  then show ?case by simp
next
  case (Cons loc locs)
  obtain r w1 where f: "spec_first_pool d user level dm loc spec_priority w = (r, w1)"
    by (metis surj_pair)
  obtain others w2 where o: "spec_locations d user level dm locs w1 = (others, w2)"
    by (metis surj_pair)
  note IH = Cons.IH[OF o]
  from Cons.prems f o have found: "found = (case r of None \<Rightarrow> [] | Some s \<Rightarrow> [s]) @ others"
    by simp
  from spec_first_pool_candidates[OF f] IH found show ?case
    by (cases r) auto
qed

lemma get_server_served:
  assumes "get_server user level LOCATIONED None w = (sl, w')"
  shows "list_all2 (\<lambda>s l. s \<in> set (candidates (w_db w) user level LOCATIONED (Some (l_id l)))) sl
           (filter (\<lambda>l. candidates (w_db w) user level LOCATIONED (Some (l_id l)) \<noteq> [])
              (filter l_active (Location_objects (w_db w))))"
proof -
  from assms have "spec_locations (w_db w) user level LOCATIONED
       (map (\<lambda>l. Some (l_id l)) (filter l_active (Location_objects (w_db w)))) w = (sl, w')"
    by (simp add: get_server_spec_locations target_locations_def)
  from spec_locations_served[OF this] show ?thesis
    by (simp add: filter_map comp_def list_all2_map2)
qed

lemma create_keys_legacy_rows:
  assumes ok: "create_keys_legacy st e user vd cks w = (Inr (ou', p'), cks', w')"
      and loc: "vd_model vd = Some LOCATIONED"
  shows "\<exists>new cks_new.
           OutlineUser_objects (w_db w') = OutlineUser_objects (w_db w) @ new \<and>
           cks' = cks @ cks_new \<and>
           map ou_server new = map kd_server cks_new \<and>
           (let level = int (server_level st
                  (if increase_reputation (w_db w) user LOCATIONED
                   then after_new_key (u_reputation user) else u_reputation user))
            in list_all2
                 (\<lambda>r l. ou_server r \<in>
                    s_id ` fst ` set (candidates (w_db w) user level LOCATIONED (Some (l_id l))))
                 new
                 (filter (\<lambda>l. candidates (w_db w) user level LOCATIONED (Some (l_id l)) \<noteq> [])
                    (filter l_active (Location_objects (w_db w))))) \<and>
           (\<forall>r \<in> set new.
              ou_group_id r = Some (case max_group_id (w_db w) of None \<Rightarrow> 1 | Some m \<Rightarrow> m + 1) \<and>
              new_pk (w_db w) \<le> ou_id r) \<and>
           new \<noteq> [] \<and> ou' \<in> Some ` set new"
proof -
  let ?gid = "(case max_group_id (w_db w) of
                  None \<Rightarrow> Some 1
                | Some g \<Rightarrow> if g \<noteq> 0 then Some (g + 1) else Some (1::int))"
  let ?rep = "(if increase_reputation (w_db w) user LOCATIONED
             then after_new_key (u_reputation user) else u_reputation user)"
  let ?level = "int (server_level st ?rep)"
  let ?served = "filter (\<lambda>l. candidates (w_db w) user ?level LOCATIONED (Some (l_id l)) \<noteq> [])
                    (filter l_active (Location_objects (w_db w)))"
  obtain sl w1 where gs: "get_server user ?level LOCATIONED None w = (sl, w1)"
    by (metis surj_pair)
  from get_server_db_length[OF gs] have db1: "w_db w1 = w_db w" by auto
  from ok loc gs have ne: "sl \<noteq> []"
    by (auto simp: create_keys_legacy_def Let_def split: if_splits)
  from ok loc gs ne obtain w2 where
    ll: "legacy_loop st e user ?gid ?rep sl cks None None w1 = (Inr (ou', p'), cks', w2)"
    and w': "OutlineUser_objects (w_db w') = OutlineUser_objects (w_db w2)"
    by (auto simp: create_keys_legacy_def Let_def set_db_def save_vpnuser_def
        split: if_splits prod.splits sum.splits)
  from legacy_loop_rows[OF ll] obtain new cks_new where L:
    "OutlineUser_objects (w_db w2) = OutlineUser_objects (w_db w1) @ new"
    "cks' = cks @ cks_new"
    "map ou_server new = map (s_id \<circ> fst) sl"
    "map kd_server cks_new = map (s_id \<circ> fst) sl"
    "\<forall>r \<in> set new. ou_group_id r = ?gid \<and> new_pk (w_db w1) \<le> ou_id r"
    "sl \<noteq> [] \<longrightarrow> ou' \<in> Some ` set new"
    by blast
  have gid: "?gid = Some (case max_group_id (w_db w) of None \<Rightarrow> 1 | Some m \<Rightarrow> m + 1)"
    by (auto split: option.splits)
  from L(3) have len_new: "length new = length sl" by (metis length_map)
  have served: "list_all2
      (\<lambda>r l. ou_server r \<in> s_id ` fst ` set (candidates (w_db w) user ?level LOCATIONED (Some (l_id l))))
      new ?served"
  proof -
    from get_server_served[OF gs]
    have a: "list_all2 (\<lambda>s l. s \<in> set (candidates (w_db w) user ?level LOCATIONED (Some (l_id l))))
               sl ?served" .
    then have "list_all2
        (\<lambda>s l. (s_id \<circ> fst) s \<in>
            s_id ` fst ` set (candidates (w_db w) user ?level LOCATIONED (Some (l_id l))))
        sl ?served"
      by (rule list_all2_mono) force
    then have "list_all2
        (\<lambda>i l. i \<in> s_id ` fst ` set (candidates (w_db w) user ?level LOCATIONED (Some (l_id l))))
        (map (s_id \<circ> fst) sl) ?served"
      by (simp only: list_all2_map1)
    then show ?thesis
      by (simp only: L(3)[symmetric] list_all2_map1)
  qed
  from len_new ne have "new \<noteq> []" by auto
  with L w' db1 gid served show ?thesis
    by (intro exI[of _ new] exI[of _ cks_new]) (auto simp: Let_def)
qed

lemma mark_not_on_server_keep:
  "i \<notin> J \<Longrightarrow>
     filter (\<lambda>r. ou_id r \<in> J) (OutlineUser_objects (w_db (mark_not_on_server i w))) =
     filter (\<lambda>r. ou_id r \<in> J) (OutlineUser_objects (w_db w))"
proof -
  have "\<And>rows. i \<notin> J \<Longrightarrow>
      filter (\<lambda>r. ou_id r \<in> J)
        (map (\<lambda>r. if ou_id r = i then r\<lparr>ou_exists_on_server := False\<rparr> else r) rows) =
      filter (\<lambda>r. ou_id r \<in> J) rows"
    subgoal for rows by (induction rows) auto
    done
  then show "i \<notin> J \<Longrightarrow> ?thesis" by (simp add: mark_not_on_server_def)
qed

lemma log_call_db: "w_db (log_call c w) = w_db w"
  by (simp add: log_call_def)

lemma remove_one_key_keep:
  assumes "remove_one_key st e key failed w = (r, w')"
      and "\<And>i. kd_id key = Some i \<Longrightarrow> i \<notin> J"
  shows "filter (\<lambda>r. ou_id r \<in> J) (OutlineUser_objects (w_db w')) =
         filter (\<lambda>r. ou_id r \<in> J) (OutlineUser_objects (w_db w))"
proof (cases "kd_id key")
  case None
  with assms(1) show ?thesis by (simp add: remove_one_key_def)
next
  case (Some i)
  with assms(2) have "i \<notin> J" by simp
  with assms(1) Some show ?thesis
    by (auto simp: remove_one_key_def remove_gtf_def remove_with_manager_def Let_def
          mark_not_on_server_keep log_call_db
        split: option.splits if_splits prod.splits sum.splits delete_outcome.splits)
qed

lemma remove_key_loop_keep:
  assumes "remove_key_loop st e keys failed w = (r, w')"
      and "\<And>key i. key \<in> set keys \<Longrightarrow> kd_id key = Some i \<Longrightarrow> i \<notin> J"
  shows "filter (\<lambda>r. ou_id r \<in> J) (OutlineUser_objects (w_db w')) =
         filter (\<lambda>r. ou_id r \<in> J) (OutlineUser_objects (w_db w))"
  using assms
proof (induction keys arbitrary: failed w)
  case Nil
  then show ?case by simp
next
  case (Cons key keys)
  obtain r1 w1 where one: "remove_one_key st e key failed w = (r1, w1)" by (metis surj_pair)
  have k1: "filter (\<lambda>r. ou_id r \<in> J) (OutlineUser_objects (w_db w1)) =
            filter (\<lambda>r. ou_id r \<in> J) (OutlineUser_objects (w_db w))"
    by (rule remove_one_key_keep[OF one]) (use Cons.prems(2) in auto)
  show ?case
  proof (cases r1)
    case (Inl x)
    with Cons.prems(1) one k1 show ?thesis by simp
  next
    case (Inr f1)
    with Cons.prems(1) one have "remove_key_loop st e keys f1 w1 = (r, w')" by simp
    then have "filter (\<lambda>r. ou_id r \<in> J) (OutlineUser_objects (w_db w')) =
               filter (\<lambda>r. ou_id r \<in> J) (OutlineUser_objects (w_db w1))"
      by (rule Cons.IH) (use Cons.prems(2) in auto)
    with k1 show ?thesis by simp
  qed
qed

lemma save_outline_user_keep:
  "ou_id k \<notin> J \<Longrightarrow>
     filter (\<lambda>r. ou_id r \<in> J) (OutlineUser_objects (save_outline_user k d)) =
     filter (\<lambda>r. ou_id r \<in> J) (OutlineUser_objects d)"
proof -
  have "\<And>rows. ou_id k \<notin> J \<Longrightarrow>
      filter (\<lambda>r. ou_id r \<in> J) (map (\<lambda>r. if ou_id r = ou_id k then k else r) rows) =
      filter (\<lambda>r. ou_id r \<in> J) rows"
    subgoal for rows by (induction rows) auto
    done
  then show "ou_id k \<notin> J \<Longrightarrow> ?thesis" by (simp add: save_outline_user_def)
qed

lemma deactivate_keep:
  "ou_id k \<notin> J \<Longrightarrow>
     filter (\<lambda>r. ou_id r \<in> J) (OutlineUser_objects (snd (deactivate k issue transfer d))) =
     filter (\<lambda>r. ou_id r \<in> J) (OutlineUser_objects d)"
  by (simp add: deactivate_def Let_def save_outline_user_keep)

lemma refresh_from_db_id: "refresh_from_db key d = Inr r \<Longrightarrow> ou_id r = ou_id key"
  by (auto simp: refresh_from_db_def split: option.splits dest: find_Some_iff[THEN iffD1])

lemma deactivate_loop_keep:
  assumes "deactivate_loop keys issue d = Inr d'"
      and "\<And>key. key \<in> set keys \<Longrightarrow> ou_id key \<notin> J"
  shows "filter (\<lambda>r. ou_id r \<in> J) (OutlineUser_objects d') =
         filter (\<lambda>r. ou_id r \<in> J) (OutlineUser_objects d)"
  using assms
proof (induction keys arbitrary: d)
  case Nil
  then show ?case by simp
next
  case (Cons key keys)
  from Cons.prems(1) obtain r where r: "refresh_from_db key d = Inr r"
    by (auto split: sum.splits)
  from refresh_from_db_id[OF r] Cons.prems(2) have fresh: "ou_id r \<notin> J" by simp
  show ?case
  proof (cases issue)
    case (An_issue i)
    from fresh
    have k1: "filter (\<lambda>r. ou_id r \<in> J) (OutlineUser_objects (snd (deactivate r i None d))) =
              filter (\<lambda>r. ou_id r \<in> J) (OutlineUser_objects d)"
      by (rule deactivate_keep)
    from Cons.prems(1) r An_issue
    have "deactivate_loop keys issue (snd (deactivate r i None d)) = Inr d'"
      by simp
    then have "filter (\<lambda>r. ou_id r \<in> J) (OutlineUser_objects d') =
               filter (\<lambda>r. ou_id r \<in> J) (OutlineUser_objects (snd (deactivate r i None d)))"
      by (rule Cons.IH) (use Cons.prems(2) in auto)
    with k1 show ?thesis by simp
  next
    case (A_number n)
    with Cons.prems(1) r have "deactivate_loop keys issue d = Inr d'"
      by (simp split: if_splits)
    then show ?thesis
      by (rule Cons.IH) (use Cons.prems(2) in auto)
  qed
qed

lemma retire_last_keys_keep:
  assumes "retire_last_keys st e last_keys issue w = (r, w')"
      and "\<And>key. key \<in> set last_keys \<Longrightarrow> ou_id key \<notin> J"
  shows "filter (\<lambda>r. ou_id r \<in> J) (OutlineUser_objects (w_db w')) =
         filter (\<lambda>r. ou_id r \<in> J) (OutlineUser_objects (w_db w))"
proof (cases "last_keys = []")
  case True
  with assms(1) show ?thesis by (simp add: retire_last_keys_def)
next
  case False
  obtain r1 w1 where rm: "remove_key_loop st e (get_key_dict last_keys) [] w = (r1, w1)"
    by (metis surj_pair)
  have k1: "filter (\<lambda>r. ou_id r \<in> J) (OutlineUser_objects (w_db w1)) =
            filter (\<lambda>r. ou_id r \<in> J) (OutlineUser_objects (w_db w))"
    by (rule remove_key_loop_keep[OF rm]) (use assms(2) in \<open>auto simp: get_key_dict_def\<close>)
  show ?thesis
  proof (cases r1)
    case (Inl x)
    with assms(1) rm False k1 show ?thesis
      by (simp add: retire_last_keys_def remove_key_from_server_def)
  next
    case (Inr failed)
    show ?thesis
    proof (cases "remove_keys_from_db last_keys issue (w_db w1)")
      case (Inl x)
      with assms(1) rm False k1 Inr show ?thesis
        by (simp add: retire_last_keys_def remove_key_from_server_def)
    next
      case (Inr d')
      then obtain issue' where "deactivate_loop last_keys issue' (w_db w1) = Inr d'"
        by (auto simp: remove_keys_from_db_def Let_def)
      then have "filter (\<lambda>r. ou_id r \<in> J) (OutlineUser_objects d') =
                 filter (\<lambda>r. ou_id r \<in> J) (OutlineUser_objects (w_db w1))"
        by (rule deactivate_loop_keep) (use assms(2) in auto)
      with assms(1) rm False k1 Inr \<open>r1 = Inr failed\<close> show ?thesis
        by (auto simp: retire_last_keys_def remove_key_from_server_def set_db_def)
    qed
  qed
qed

lemma update_online_config_rows:
  "update_online_config st e ou p w = (r, w') \<Longrightarrow>
     OutlineUser_objects (w_db w') = OutlineUser_objects (w_db w)"
  by (auto simp: update_online_config_def Let_def set_db_def log_call_def
      split: if_splits list.splits)

lemma random_request_type_db: "random_request_type st w = (r, w') \<Longrightarrow> w_db w' = w_db w"
  by (auto simp: random_request_type_def random_choices_weighted_def random_choices_uniform_def
        draw_def Let_def split: if_splits prod.splits)

lemma create_keys_success_legacy:
  assumes "create_keys st e user request_type vd cks w = (Inr r, cks', w')"
      and "vd_model vd \<noteq> None"
  shows "request_type = ''legacy''"
  using assms
  by (auto simp: create_keys_def finish_single_def Let_def
      split: if_splits prod.splits sum.splits)

lemma set_map_filter: "set (List.map_filter f xs) = {y. Some y \<in> f ` set xs}"
  by (induction xs) (auto simp: map_filter_simps image_iff split: option.splits)

lemma max_group_id_Max:
  "max_group_id d =
     (if {g. Some g \<in> ou_group_id ` set (OutlineUser_objects d)} = {} then None
      else Some (Max {g. Some g \<in> ou_group_id ` set (OutlineUser_objects d)}))"
proof (cases "List.map_filter ou_group_id (OutlineUser_objects d)")
  case Nil
  then have "set (List.map_filter ou_group_id (OutlineUser_objects d)) = {}" by simp
  then have "{g. Some g \<in> ou_group_id ` set (OutlineUser_objects d)} = {}"
    by (simp only: set_map_filter)
  with Nil show ?thesis by (simp add: max_group_id_def)
next
  case (Cons g gs)
  then have "set (g # gs) = {g. Some g \<in> ou_group_id ` set (OutlineUser_objects d)}"
    by (simp only: set_map_filter[symmetric])
  moreover have "fold max gs g = Max (set (g # gs))"
    by (simp only: Max.set_eq_fold)
  moreover have "set (g # gs) \<noteq> {}" by simp
  ultimately show ?thesis using Cons
    by (simp add: max_group_id_def)
qed

text \<open>
  Claim C8, amended. When a location based \<open>create\<close> succeeds (whether the request names
  the legacy type or leaves the type to the draw), the credentials it has added (the rows
  whose id the database did not hold before) correspond one to one, in order, to the active
  locations that have an eligible server for the user's tier, each row on an eligible
  server of its location; they are the keys listed in the returned \<^verbatim>\<open>created_keys\<close>. All
  of them carry the same group id: the greatest group id among the credentials stored
  before plus one, or 1 when none of them has a group id. There is at least one such row,
  and the returned credential is one of them. Active locations without an eligible
  server get no row.
\<close>

theorem create_locationed_group:
  assumes ok: "create st e vd w = (Inr (ou, cks), w')"
      and loc: "vd_model vd = Some LOCATIONED"
  shows "\<exists>user.
           find (\<lambda>u. Some (u_username u) = hash_user_id e (vd_user vd)) (Vpnuser_objects (w_db w))
             = Some user \<and>
           (let level = int (server_level st
                  (if increase_reputation (w_db w) user LOCATIONED
                   then after_new_key (u_reputation user) else u_reputation user));
                served = filter (\<lambda>l. candidates (w_db w) user level LOCATIONED (Some (l_id l)) \<noteq> [])
                           (filter l_active (Location_objects (w_db w)));
                new = filter (\<lambda>r. ou_id r \<notin> ou_id ` set (OutlineUser_objects (w_db w)))
                        (OutlineUser_objects (w_db w'));
                stored_groups = {g. Some g \<in> ou_group_id ` set (OutlineUser_objects (w_db w))};
                group = (if stored_groups = {} then 1 else Max stored_groups + 1)
            in list_all2
                 (\<lambda>r l. ou_server r \<in>
                    s_id ` fst ` set (candidates (w_db w) user level LOCATIONED (Some (l_id l))))
                 new served \<and>
               map ou_server new = map kd_server cks \<and>
               (\<forall>r \<in> set new. ou_group_id r = Some group) \<and>
               new \<noteq> [] \<and> ou \<in> set new)"
proof -
  let ?J = "{i. i \<notin> ou_id ` set (OutlineUser_objects (w_db w))}"
  from ok obtain user where
    user: "find (\<lambda>u. Some (u_username u) = hash_user_id e (vd_user vd)) (Vpnuser_objects (w_db w)) = Some user"
    by (auto simp: create_def split: option.splits)
  from ok user obtain rt w1 where rrt: "random_request_type st w = (Inr rt, w1)"
    by (auto simp: create_def Let_def split: if_splits prod.splits sum.splits)
  from random_request_type_db[OF rrt] have db1: "w_db w1 = w_db w" .
  let ?last = "filter (\<lambda>k. ou_request_type k = ''legacy'') (outline_keys (w_db w1) user)"
  let ?type = "(case vd_request_type vd of Some t \<Rightarrow> t | None \<Rightarrow> rt)"
  from ok user rrt obtain p w2 w3 where
    cka: "create_keys_atomic st e user ?type vd w1 = (Inr (Some ou, p, cks), w2)"
    and uoc: "update_online_config st e ou p w2 = (Inr (), w3)"
    and rlk: "retire_last_keys st e ?last (vd_user_issue vd) w3 = (Inr (), w')"
    by (auto simp: create_def Let_def split: if_splits prod.splits sum.splits option.splits)
  from cka have ck: "create_keys st e user ?type vd [] w1 = (Inr (Some ou, p), cks, w2)"
    by (auto simp: create_keys_atomic_def Let_def split: if_splits prod.splits sum.splits)
  from create_keys_success_legacy[OF ck] loc have "?type = ''legacy''" by simp
  with ck have ckl: "create_keys_legacy st e user vd [] w1 = (Inr (Some ou, p), cks, w2)"
    by (simp add: create_keys_def)
  from create_keys_legacy_rows[OF ckl loc] obtain new cks_new where N:
    "OutlineUser_objects (w_db w2) = OutlineUser_objects (w_db w1) @ new"
    "cks = [] @ cks_new"
    "map ou_server new = map kd_server cks_new"
    "(let level = int (server_level st
                  (if increase_reputation (w_db w1) user LOCATIONED
                   then after_new_key (u_reputation user) else u_reputation user))
      in list_all2
           (\<lambda>r l. ou_server r \<in>
              s_id ` fst ` set (candidates (w_db w1) user level LOCATIONED (Some (l_id l))))
           new
           (filter (\<lambda>l. candidates (w_db w1) user level LOCATIONED (Some (l_id l)) \<noteq> [])
              (filter l_active (Location_objects (w_db w1)))))"
    "\<forall>r \<in> set new.
        ou_group_id r = Some (case max_group_id (w_db w1) of None \<Rightarrow> 1 | Some m \<Rightarrow> m + 1) \<and>
        new_pk (w_db w1) \<le> ou_id r"
    "new \<noteq> []" "Some ou \<in> Some ` set new"
    by blast
  have keep: "filter (\<lambda>r. ou_id r \<in> ?J) (OutlineUser_objects (w_db w')) =
              filter (\<lambda>r. ou_id r \<in> ?J) (OutlineUser_objects (w_db w3))"
    by (rule retire_last_keys_keep[OF rlk]) (auto simp: outline_keys_def db1)
  have fresh: "\<forall>r \<in> set new. ou_id r \<in> ?J"
    using N(5) new_pk_fresh[of _ "w_db w"] by (fastforce simp: db1)
  have "filter (\<lambda>r. ou_id r \<in> ?J) (OutlineUser_objects (w_db w1) @ new) = new"
    using fresh by (auto simp: db1 filter_empty_conv filter_id_conv)
  with keep update_online_config_rows[OF uoc] N(1)
  have new: "filter (\<lambda>r. ou_id r \<notin> ou_id ` set (OutlineUser_objects (w_db w)))
                     (OutlineUser_objects (w_db w')) = new"
    by simp
  have group: "(case max_group_id (w_db w) of None \<Rightarrow> 1 | Some m \<Rightarrow> m + 1) =
        (if {g. Some g \<in> ou_group_id ` set (OutlineUser_objects (w_db w))} = {} then 1
         else Max {g. Some g \<in> ou_group_id ` set (OutlineUser_objects (w_db w))} + 1)"
    by (simp add: max_group_id_Max)
  show ?thesis
    apply (rule exI[of _ user])
    using user N(2-7) by (auto simp: new db1 group Let_def)
qed

text \<open>Claim C8 as the specification states it does not hold: with three active locations
  of which one has no eligible server, \<open>create\<close> succeeds and stores two credentials.\<close>

theorem two_rows_for_three_locations:
  "length (filter l_active (Location_objects located_db)) = 3 \<and>
   (\<exists>ou cks. fst (create settings_local quiet_env located_request (world_of located_db)) = Inr (ou, cks)) \<and>
   map ou_server (OutlineUser_objects (w_db (snd (create settings_local quiet_env located_request
      (world_of located_db))))) = [1, 2] \<and>
   OutlineUser_objects located_db = []"
  by (simp add: eval_defs)

theorem create_locationed_group_witness:
  "(\<exists>ou cks. fst (create settings_local quiet_env (located_request\<lparr>vd_request_type := None\<rparr>)
                 (world_of grouped_db)) = Inr (ou, cks)) \<and>
   map ou_group_id
     (filter (\<lambda>r. ou_id r \<notin> ou_id ` set (OutlineUser_objects (w_db (world_of grouped_db))))
        (OutlineUser_objects (w_db (snd (create settings_local quiet_env
           (located_request\<lparr>vd_request_type := None\<rparr>) (world_of grouped_db))))))
     = [Some 8, Some 8, Some 8]"
proof -
  let ?rq = "located_request\<lparr>vd_request_type := None\<rparr>"
  obtain r w' where c: "create settings_local quiet_env ?rq (world_of grouped_db) = (r, w')"
    by (metis surj_pair)
  have "\<exists>ou cks. r = Inr (ou, cks)"
    using c[symmetric] by (simp add: eval_defs)
  then obtain ou cks where r: "r = Inr (ou, cks)" by blast
  have ids: "map ou_id (OutlineUser_objects (w_db w')) = [5, 6, 9, 10, 11, 12]"
    using c[symmetric] by (simp add: eval_defs)
  have old: "map ou_id (OutlineUser_objects (w_db (world_of grouped_db))) = [5, 6, 9]"
    by (simp add: fixture_defs)
  have h3: "vd_model ?rq = Some LOCATIONED"
    by (simp add: located_request_def LOCATIONED_def)
  have groups: "{g. Some g \<in> ou_group_id ` set (OutlineUser_objects (w_db (world_of grouped_db)))} = {4, 7}"
    by (auto simp: fixture_defs)
  let ?new = "filter (\<lambda>r. ou_id r \<notin> ou_id ` set (OutlineUser_objects (w_db (world_of grouped_db))))
                   (OutlineUser_objects (w_db w'))"
  from create_locationed_group[OF c[unfolded r] h3]
  have g: "\<forall>r \<in> set ?new. ou_group_id r = Some 8"
    by (auto simp: groups Let_def)
  have "length ?new = length (filter (\<lambda>i. i \<notin> set (map ou_id (OutlineUser_objects (w_db (world_of grouped_db)))))
                        (map ou_id (OutlineUser_objects (w_db w'))))"
    by (simp add: filter_map comp_def)
  also have "\<dots> = 3" by (simp only: ids old) simp
  finally have l3: "length ?new = 3" .
  then obtain a b c' where "?new = [a, b, c']"
    by (auto simp: length_Suc_conv numeral_3_eq_3)
  with g have "map ou_group_id ?new = [Some 8, Some 8, Some 8]" by simp
  with c r show ?thesis by simp
qed

end
